theory Spec2Isabelle
  imports Main
begin

chapter \<open>The assistant bot: address book, records and command handlers\<close>

text \<open>
  A shallow embedding of \<^verbatim>\<open>main.py\<close>: the field validators, the contact record,
  the address book with its upcoming-birthdays query, and the command handlers with
  their error wrapper. Python objects that are mutated become values that are passed
  in and returned; every \<^verbatim>\<open>raise\<close> becomes a value of the type \<open>error\<close>.
  The functions of the Python standard library that the program calls
  (\<^verbatim>\<open>str.isdigit\<close>, \<^verbatim>\<open>datetime.strptime\<close>, the arithmetic of \<^verbatim>\<open>datetime.date\<close>)
  are modelled after CPython 3.11.
\<close>

section \<open>Python strings\<close>

text \<open>
  A Python \<^verbatim>\<open>str\<close> is a sequence of Unicode code points and \<^verbatim>\<open>len\<close> counts code
  points, so a string is a list of code point numbers. \<open>lit\<close> turns an ASCII literal of
  the source into such a list.
\<close>

type_synonym pystr = "nat list"

definition lit :: "string \<Rightarrow> pystr" where
  "lit cs = map of_char cs"

text \<open>
  \<^verbatim>\<open>str.isdecimal\<close> and the regular expression class \<^verbatim>\<open>\d\<close> accept the characters of
  general category Nd. In the Unicode Character Database they come in runs of ten
  consecutive code points with the values 0 to 9; \<open>decimal_zeros\<close> lists the first code
  point of every run (Unicode 14.0.0, the database of CPython 3.11).
\<close>

definition decimal_zeros :: "nat list" where
  "decimal_zeros =
    [48, 1632, 1776, 1984, 2406, 2534, 2662, 2790, 2918, 3046, 3174, 3302, 3430, 3558,
     3664, 3792, 3872, 4160, 4240, 6112, 6160, 6470, 6608, 6784, 6800, 6992, 7088, 7232,
     7248, 42528, 43216, 43264, 43472, 43504, 43600, 44016, 65296, 66720, 68912, 69734,
     69872, 69942, 70096, 70384, 70736, 70864, 71248, 71360, 71472, 71904, 72016, 72784,
     73040, 73120, 92768, 92864, 93008, 120782, 120792, 120802, 120812, 120822, 123200,
     123632, 125264, 130032]"

definition decimal_run :: "nat \<Rightarrow> nat option" where
  "decimal_run c = List.find (\<lambda>z. z \<le> c \<and> c < z + 10) decimal_zeros"

definition isdecimal_char :: "nat \<Rightarrow> bool" where
  "isdecimal_char c = (decimal_run c \<noteq> None)"

definition decimal_value :: "nat \<Rightarrow> nat" where
  "decimal_value c = (case decimal_run c of None \<Rightarrow> 0 | Some z \<Rightarrow> c - z)"

text \<open>
  \<^verbatim>\<open>str.isdigit\<close> accepts, besides the decimal characters, the characters whose
  Numeric_Type is Digit (superscripts, circled digits and the like), listed here as
  inclusive ranges of code points.
\<close>

definition other_digit_ranges :: "(nat \<times> nat) list" where
  "other_digit_ranges =
    [(178, 179), (185, 185), (4969, 4977), (6618, 6618), (8304, 8304), (8308, 8313),
     (8320, 8329), (9312, 9320), (9332, 9340), (9352, 9360), (9450, 9450), (9461, 9469),
     (9471, 9471), (10102, 10110), (10112, 10120), (10122, 10130), (68160, 68163),
     (69216, 69224), (69714, 69722), (127232, 127242)]"

definition isdigit_char :: "nat \<Rightarrow> bool" where
  "isdigit_char c =
     (isdecimal_char c \<or> list_ex (\<lambda>(lo, hi). lo \<le> c \<and> c \<le> hi) other_digit_ranges)"

text \<open>\<^verbatim>\<open>str.isdigit\<close>: all characters are digits and there is at least one character.\<close>

definition isdigit :: "pystr \<Rightarrow> bool" where
  "isdigit s = (s \<noteq> [] \<and> list_all isdigit_char s)"

text \<open>The ASCII digits \<^verbatim>\<open>0\<close> to \<^verbatim>\<open>9\<close>, as the specification speaks of them.\<close>

definition ascii_digit :: "nat \<Rightarrow> bool" where
  "ascii_digit c = (48 \<le> c \<and> c \<le> 57)"

text \<open>\<^verbatim>\<open>str(n)\<close> for a natural number: its decimal digits.\<close>

fun str_nat :: "nat \<Rightarrow> pystr" where
  "str_nat n = (if n < 10 then [48 + n] else str_nat (n div 10) @ [48 + n mod 10])"

declare str_nat.simps [simp del]

text \<open>\<^verbatim>\<open>str(i)\<close> for an integer.\<close>

definition str_int :: "int \<Rightarrow> pystr" where
  "str_int i = (if i < 0 then [45] @ str_nat (nat (- i)) else str_nat (nat i))"

text \<open>\<^verbatim>\<open>sep.join(xs)\<close>.\<close>

fun join :: "pystr \<Rightarrow> pystr list \<Rightarrow> pystr" where
  "join sep [] = []"
| "join sep [x] = x"
| "join sep (x # y # ys) = x @ sep @ join sep (y # ys)"

section \<open>Exceptions\<close>

text \<open>
  The exceptions the program can meet, each with its message. \<^verbatim>\<open>ValueError\<close> is what
  the validators raise, \<^verbatim>\<open>AttributeError\<close> is a method call on \<^verbatim>\<open>None\<close>,
  \<^verbatim>\<open>OverflowError\<close> is date arithmetic leaving the range of \<^verbatim>\<open>datetime.date\<close>.
\<close>

datatype error =
    ValueError pystr
  | AttributeError pystr
  | KeyError pystr
  | OverflowError pystr

type_synonym 'a result = "error + 'a"

section \<open>Fields\<close>

text \<open>
  A field object holds the validated string in \<^verbatim>\<open>value\<close>; the model of a constructor
  returns that string, or the exception raised.
\<close>

definition Name :: "pystr \<Rightarrow> pystr result" where
  "Name v = (if v = [] then Inl (ValueError (lit ''Name cannot be empty'')) else Inr v)"

definition Phone :: "pystr \<Rightarrow> pystr result" where
  "Phone v =
     (if \<not> isdigit v \<or> length v \<noteq> 10
      then Inl (ValueError (lit ''Phone must contain exactly 10 digits''))
      else Inr v)"

section \<open>Calendar dates\<close>

text \<open>
  \<^verbatim>\<open>datetime.date\<close>: a year, a month and a day that form a date of the proleptic
  Gregorian calendar in the years 1 to 9999. The helper functions follow the reference
  implementation of the \<^verbatim>\<open>datetime\<close> module; Python's \<^verbatim>\<open>//\<close> and \<^verbatim>\<open>%\<close> round
  towards minus infinity, as \<open>div\<close> and \<open>mod\<close> on \<open>int\<close> do.
\<close>

record date =
  year :: int
  month :: int
  day :: int

definition DAYS_IN_MONTH :: "int list" where
  "DAYS_IN_MONTH = [- 1, 31, 28, 31, 30, 31, 30, 31, 31, 30, 31, 30, 31]"

definition DAYS_BEFORE_MONTH :: "int list" where
  "DAYS_BEFORE_MONTH = [- 1, 0, 31, 59, 90, 120, 151, 181, 212, 243, 273, 304, 334]"

definition MAXORDINAL :: int where
  "MAXORDINAL = 3652059"

definition is_leap :: "int \<Rightarrow> bool" where
  "is_leap y = (y mod 4 = 0 \<and> (y mod 100 \<noteq> 0 \<or> y mod 400 = 0))"

definition days_before_year :: "int \<Rightarrow> int" where
  "days_before_year y' = (let y = y' - 1 in y * 365 + y div 4 - y div 100 + y div 400)"

definition days_in_month :: "int \<Rightarrow> int \<Rightarrow> int" where
  "days_in_month y m = (if m = 2 \<and> is_leap y then 29 else DAYS_IN_MONTH ! nat m)"

definition days_before_month :: "int \<Rightarrow> int \<Rightarrow> int" where
  "days_before_month y m = DAYS_BEFORE_MONTH ! nat m + (if m > 2 \<and> is_leap y then 1 else 0)"

definition ymd2ord :: "int \<Rightarrow> int \<Rightarrow> int \<Rightarrow> int" where
  "ymd2ord y m d = days_before_year y + days_before_month y m + d"

definition ord2ymd :: "int \<Rightarrow> int \<times> int \<times> int" where
  "ord2ymd n0 =
     (let n = n0 - 1;
          n400 = n div 146097; n = n mod 146097;
          y = n400 * 400 + 1;
          n100 = n div 36524; n = n mod 36524;
          n4 = n div 1461; n = n mod 1461;
          n1 = n div 365; n = n mod 365;
          y = y + n100 * 100 + n4 * 4 + n1
      in if n1 = 4 \<or> n100 = 4 then (y - 1, 12, 31)
         else
           let leapyear = (n1 = 3 \<and> (n4 \<noteq> 24 \<or> n100 = 3));
               m = (n + 50) div 32;
               preceding = DAYS_BEFORE_MONTH ! nat m + (if m > 2 \<and> leapyear then 1 else 0)
           in if preceding > n
              then let m = m - 1;
                       preceding = preceding
                         - (DAYS_IN_MONTH ! nat m + (if m = 2 \<and> leapyear then 1 else 0))
                   in (y, m, n - preceding + 1)
              else (y, m, n - preceding + 1))"

text \<open>
  The constructor \<^verbatim>\<open>date(year, month, day)\<close> checks its fields and raises
  \<^verbatim>\<open>ValueError\<close> with the messages of CPython.
\<close>

definition new_date :: "int \<Rightarrow> int \<Rightarrow> int \<Rightarrow> date result" where
  "new_date y m d =
     (if y < 1 \<or> 9999 < y
      then Inl (ValueError (lit ''year '' @ str_int y @ lit '' is out of range''))
      else if m < 1 \<or> 12 < m then Inl (ValueError (lit ''month must be in 1..12''))
      else if d < 1 \<or> days_in_month y m < d
      then Inl (ValueError (lit ''day is out of range for month''))
      else Inr \<lparr>year = y, month = m, day = d\<rparr>)"

text \<open>\<^verbatim>\<open>d.replace(year=y)\<close> builds a new date, so it validates again.\<close>

definition replace_year :: "date \<Rightarrow> int \<Rightarrow> date result" where
  "replace_year d y = new_date y (month d) (day d)"

definition toordinal :: "date \<Rightarrow> int" where
  "toordinal d = ymd2ord (year d) (month d) (day d)"

definition fromordinal :: "int \<Rightarrow> date result" where
  "fromordinal n = (case ord2ymd n of (y, m, d) \<Rightarrow> new_date y m d)"

text \<open>\<^verbatim>\<open>d1 < d2\<close> compares year, month and day in this order.\<close>

definition date_less :: "date \<Rightarrow> date \<Rightarrow> bool" where
  "date_less a b =
     (year a < year b \<or> (year a = year b \<and>
       (month a < month b \<or> (month a = month b \<and> day a < day b))))"

text \<open>\<^verbatim>\<open>(d1 - d2).days\<close>.\<close>

definition days_between :: "date \<Rightarrow> date \<Rightarrow> int" where
  "days_between a b = toordinal a - toordinal b"

text \<open>\<^verbatim>\<open>d + timedelta(days=k)\<close>.\<close>

definition date_add_days :: "date \<Rightarrow> int \<Rightarrow> date result" where
  "date_add_days d k =
     (let o' = toordinal d + k
      in if 0 < o' \<and> o' \<le> MAXORDINAL then fromordinal o'
         else Inl (OverflowError (lit ''date value out of range'')))"

text \<open>\<^verbatim>\<open>d.weekday()\<close>: Monday is 0 and Sunday is 6.\<close>

definition weekday :: "date \<Rightarrow> int" where
  "weekday d = (toordinal d + 6) mod 7"

text \<open>
  \<^verbatim>\<open>d.strftime("%d.%m.%Y")\<close>: day and month with two digits; the year as the C library
  of the platform prints it, which on Linux is the decimal number without padding.
\<close>

definition pad2 :: "int \<Rightarrow> pystr" where
  "pad2 n = (if n < 10 then lit ''0'' @ str_nat (nat n) else str_nat (nat n))"

definition strftime :: "date \<Rightarrow> pystr" where
  "strftime d = pad2 (day d) @ lit ''.'' @ pad2 (month d) @ lit ''.'' @ str_nat (nat (year d))"

section \<open>Parsing a date: \<^verbatim>\<open>datetime.strptime(value, "%d.%m.%Y")\<close>\<close>

text \<open>
  \<^verbatim>\<open>_strptime\<close> turns the format into the regular expression
  \<^verbatim>\<open>(?P<d>3[0-1]|[1-2]\d|0[1-9]|[1-9]| [1-9])\.(?P<m>1[0-2]|0[1-9]|[1-9])\.(?P<Y>\d\d\d\d)\<close>
  and matches it at the start of the string. Every alternative is a sequence of
  character classes; \<open>match_seq\<close> matches one alternative and returns the matched text
  with the rest of the string, and \<open>alternatives\<close> lists the alternatives that match, in
  the order the backtracking matcher tries them.
\<close>

definition chr_is :: "char \<Rightarrow> nat \<Rightarrow> bool" where
  "chr_is a c = (c = of_char a)"

definition chr_range :: "char \<Rightarrow> char \<Rightarrow> nat \<Rightarrow> bool" where
  "chr_range a b c = (of_char a \<le> c \<and> c \<le> of_char b)"

fun match_seq :: "(nat \<Rightarrow> bool) list \<Rightarrow> pystr \<Rightarrow> (pystr \<times> pystr) option" where
  "match_seq [] s = Some ([], s)"
| "match_seq (p # ps) [] = None"
| "match_seq (p # ps) (c # s) =
     (if p c
      then (case match_seq ps s of None \<Rightarrow> None | Some (g, rest) \<Rightarrow> Some (c # g, rest))
      else None)"

definition alternatives :: "(nat \<Rightarrow> bool) list list \<Rightarrow> pystr \<Rightarrow> (pystr \<times> pystr) list" where
  "alternatives alts s = List.map_filter (\<lambda>ps. match_seq ps s) alts"

definition re_d :: "pystr \<Rightarrow> (pystr \<times> pystr) list" where
  "re_d = alternatives
     [[chr_is CHR ''3'', chr_range CHR ''0'' CHR ''1''],
      [chr_range CHR ''1'' CHR ''2'', isdecimal_char],
      [chr_is CHR ''0'', chr_range CHR ''1'' CHR ''9''],
      [chr_range CHR ''1'' CHR ''9''],
      [chr_is CHR '' '', chr_range CHR ''1'' CHR ''9'']]"

definition re_m :: "pystr \<Rightarrow> (pystr \<times> pystr) list" where
  "re_m = alternatives
     [[chr_is CHR ''1'', chr_range CHR ''0'' CHR ''2''],
      [chr_is CHR ''0'', chr_range CHR ''1'' CHR ''9''],
      [chr_range CHR ''1'' CHR ''9'']]"

definition re_Y :: "pystr \<Rightarrow> (pystr \<times> pystr) list" where
  "re_Y = alternatives [[isdecimal_char, isdecimal_char, isdecimal_char, isdecimal_char]]"

definition re_dot :: "pystr \<Rightarrow> (pystr \<times> pystr) list" where
  "re_dot = alternatives [[chr_is CHR ''.'']]"

text \<open>
  All matches of the whole expression in backtracking order, each with the three groups
  and the unmatched rest; \<^verbatim>\<open>format_regex.match\<close> returns the first.
\<close>

definition format_regex_matches :: "pystr \<Rightarrow> ((pystr \<times> pystr \<times> pystr) \<times> pystr) list" where
  "format_regex_matches s =
     [((d, m, Y), s5).
        (d, s1) \<leftarrow> re_d s, (dot1, s2) \<leftarrow> re_dot s1, (m, s3) \<leftarrow> re_m s2,
        (dot2, s4) \<leftarrow> re_dot s3, (Y, s5) \<leftarrow> re_Y s4]"

definition format_regex_match :: "pystr \<Rightarrow> ((pystr \<times> pystr \<times> pystr) \<times> pystr) option" where
  "format_regex_match s = (case format_regex_matches s of [] \<Rightarrow> None | x # xs \<Rightarrow> Some x)"

text \<open>
  \<^verbatim>\<open>int(text)\<close> on the text of a group: blanks in front are skipped and the decimal
  digits, of any script, are read in base ten.
\<close>

definition py_int :: "pystr \<Rightarrow> int" where
  "py_int s = foldl (\<lambda>a c. 10 * a + int (decimal_value c)) 0 (dropWhile (\<lambda>c. c = 32) s)"

text \<open>
  \<^verbatim>\<open>repr\<close> of a string, as it appears in the message of a failed match: the string in
  single quotes (CPython escapes quotes, backslashes and unprintable characters, which
  is left out here; no claim reads this message).
\<close>

definition repr :: "pystr \<Rightarrow> pystr" where
  "repr s = [39] @ s @ [39]"

definition strptime :: "pystr \<Rightarrow> date result" where
  "strptime data_string =
     (case format_regex_match data_string of
        None \<Rightarrow>
          Inl (ValueError (lit ''time data '' @ repr data_string
                 @ lit '' does not match format '' @ repr (lit ''%d.%m.%Y'')))
      | Some ((d, m, Y), rest) \<Rightarrow>
          if rest \<noteq> [] then Inl (ValueError (lit ''unconverted data remains: '' @ rest))
          else new_date (py_int Y) (py_int m) (py_int d))"

text \<open>
  \<^verbatim>\<open>Birthday(value)\<close> keeps the string and replaces the message of any
  \<^verbatim>\<open>ValueError\<close> of the parser; \<^verbatim>\<open>date_obj\<close> parses the kept string again.
\<close>

definition Birthday :: "pystr \<Rightarrow> pystr result" where
  "Birthday v =
     (case strptime v of
        Inl (ValueError msg) \<Rightarrow> Inl (ValueError (lit ''Invalid date format. Use DD.MM.YYYY''))
      | Inl e \<Rightarrow> Inl e
      | Inr d \<Rightarrow> Inr v)"

definition date_obj :: "pystr \<Rightarrow> date result" where
  "date_obj v = strptime v"

text \<open>
  The vocabulary of the statements about \<^verbatim>\<open>Birthday\<close>. \<open>valid_ymd\<close> says that three
  numbers form a date that \<^verbatim>\<open>datetime.date\<close> can hold. \<open>spec_DD_MM_YYYY\<close> follows the
  words of the specification: two digits for the day, two for the month, four for the
  year, separated by dots, and a real calendar date. \<open>day_text\<close>, \<open>month_text\<close> and
  \<open>year_text\<close> describe the texts of the three fields in the amended statement.
\<close>

definition valid_ymd :: "int \<Rightarrow> int \<Rightarrow> int \<Rightarrow> bool" where
  "valid_ymd y m d =
     (1 \<le> y \<and> y \<le> 9999 \<and> 1 \<le> m \<and> m \<le> 12 \<and> 1 \<le> d \<and> d \<le> days_in_month y m)"

definition spec_DD_MM_YYYY :: "pystr \<Rightarrow> bool" where
  "spec_DD_MM_YYYY s =
     (length s = 10 \<and> s ! 2 = 46 \<and> s ! 5 = 46
      \<and> list_all ascii_digit (take 2 s) \<and> list_all ascii_digit (take 2 (drop 3 s))
      \<and> list_all ascii_digit (drop 6 s)
      \<and> valid_ymd (py_int (drop 6 s)) (py_int (take 2 (drop 3 s))) (py_int (take 2 s)))"

definition day_text :: "pystr \<Rightarrow> bool" where
  "day_text t =
     (case t of
        [a] \<Rightarrow> chr_range CHR ''1'' CHR ''9'' a
      | [a, b] \<Rightarrow>
          (chr_is CHR ''3'' a \<and> chr_range CHR ''0'' CHR ''1'' b)
          \<or> (chr_range CHR ''1'' CHR ''2'' a \<and> isdecimal_char b)
          \<or> (chr_is CHR ''0'' a \<and> chr_range CHR ''1'' CHR ''9'' b)
          \<or> (chr_is CHR '' '' a \<and> chr_range CHR ''1'' CHR ''9'' b)
      | _ \<Rightarrow> False)"

definition month_text :: "pystr \<Rightarrow> bool" where
  "month_text t =
     (case t of
        [a] \<Rightarrow> chr_range CHR ''1'' CHR ''9'' a
      | [a, b] \<Rightarrow>
          (chr_is CHR ''1'' a \<and> chr_range CHR ''0'' CHR ''2'' b)
          \<or> (chr_is CHR ''0'' a \<and> chr_range CHR ''1'' CHR ''9'' b)
      | _ \<Rightarrow> False)"

definition year_text :: "pystr \<Rightarrow> bool" where
  "year_text t = (length t = 4 \<and> list_all isdecimal_char t)"

section \<open>Contact record\<close>

text \<open>
  A record owns its name, the list of its phones and an optional birthday. A field
  object is modelled by its \<^verbatim>\<open>value\<close>. The methods that mutate the record return
  the outcome of the call (\<open>Inr ()\<close>, or the exception raised) together with the
  record as the call leaves it.
\<close>

record contact_record =
  name :: pystr
  phones :: "pystr list"
  birthday :: "pystr option"

definition Record :: "pystr \<Rightarrow> contact_record result" where
  "Record n =
     (case Name n of
        Inl e \<Rightarrow> Inl e
      | Inr v \<Rightarrow> Inr \<lparr>name = v, phones = [], birthday = None\<rparr>)"

definition add_phone :: "contact_record \<Rightarrow> pystr \<Rightarrow> unit result \<times> contact_record" where
  "add_phone r phone =
     (case Phone phone of
        Inl e \<Rightarrow> (Inl e, r)
      | Inr ph \<Rightarrow> (Inr (), r\<lparr>phones := phones r @ [ph]\<rparr>))"

text \<open>The loop of \<^verbatim>\<open>find_phone\<close>: the first phone whose value equals the argument.\<close>

fun find_phone_loop :: "pystr list \<Rightarrow> pystr \<Rightarrow> pystr option" where
  "find_phone_loop [] phone = None"
| "find_phone_loop (ph # rest) phone =
     (if ph = phone then Some ph else find_phone_loop rest phone)"

definition find_phone :: "contact_record \<Rightarrow> pystr \<Rightarrow> pystr option" where
  "find_phone r phone = find_phone_loop (phones r) phone"

text \<open>
  \<^verbatim>\<open>list.index(x)\<close> and \<^verbatim>\<open>list.remove(x)\<close> look for the first element equal to
  \<open>x\<close>; \<open>None\<close> stands for the \<^verbatim>\<open>ValueError\<close> they raise when there is none. The
  phone objects have no \<^verbatim>\<open>__eq__\<close>, so Python compares them by identity; the object
  handed over is the one \<^verbatim>\<open>find_phone\<close> returned, the first with that value, and
  every phone of the list is an object of its own, so the first identical element is
  the first element with an equal value.
\<close>

fun list_index :: "'a list \<Rightarrow> 'a \<Rightarrow> nat option" where
  "list_index [] x = None"
| "list_index (y # ys) x = (if y = x then Some 0 else map_option Suc (list_index ys x))"

fun list_remove :: "'a list \<Rightarrow> 'a \<Rightarrow> 'a list option" where
  "list_remove [] x = None"
| "list_remove (y # ys) x =
     (if y = x then Some ys else map_option (\<lambda>zs. y # zs) (list_remove ys x))"

definition remove_phone :: "contact_record \<Rightarrow> pystr \<Rightarrow> unit result \<times> contact_record" where
  "remove_phone r phone =
     (case find_phone r phone of
        None \<Rightarrow> (Inr (), r)
      | Some ph_obj \<Rightarrow>
          (case list_remove (phones r) ph_obj of
             None \<Rightarrow> (Inl (ValueError (lit ''list.remove(x): x not in list'')), r)
           | Some ps \<Rightarrow> (Inr (), r\<lparr>phones := ps\<rparr>)))"

definition edit_phone ::
  "contact_record \<Rightarrow> pystr \<Rightarrow> pystr \<Rightarrow> unit result \<times> contact_record" where
  "edit_phone r old_phone new_phone =
     (case find_phone r old_phone of
        None \<Rightarrow> (Inl (ValueError (lit ''Phone '' @ old_phone @ lit '' not found'')), r)
      | Some ph_obj \<Rightarrow>
          (case Phone new_phone of
             Inl e \<Rightarrow> (Inl e, r)
           | Inr new_ph \<Rightarrow>
               (case list_index (phones r) ph_obj of
                  None \<Rightarrow> (Inl (ValueError (ph_obj @ lit '' is not in list'')), r)
                | Some index \<Rightarrow> (Inr (), r\<lparr>phones := (phones r)[index := new_ph]\<rparr>))))"

definition add_birthday :: "contact_record \<Rightarrow> pystr \<Rightarrow> unit result \<times> contact_record" where
  "add_birthday r b =
     (case Birthday b of
        Inl e \<Rightarrow> (Inl e, r)
      | Inr v \<Rightarrow> (Inr (), r\<lparr>birthday := Some v\<rparr>))"

section \<open>Address book\<close>

text \<open>
  The book is a \<^verbatim>\<open>UserDict\<close>: a dictionary from names to records that keeps the
  order in which the keys were inserted. It is modelled as an association list in that
  order. Assigning to a key that is present replaces the value where it stands,
  assigning to a new key appends an entry.
\<close>

type_synonym AddressBook = "(pystr \<times> contact_record) list"

fun dict_set :: "('k \<times> 'v) list \<Rightarrow> 'k \<Rightarrow> 'v \<Rightarrow> ('k \<times> 'v) list" where
  "dict_set [] k v = [(k, v)]"
| "dict_set ((k', v') # d) k v =
     (if k' = k then (k', v) # d else (k', v') # dict_set d k v)"

fun dict_get :: "('k \<times> 'v) list \<Rightarrow> 'k \<Rightarrow> 'v option" where
  "dict_get [] k = None"
| "dict_get ((k', v') # d) k = (if k' = k then Some v' else dict_get d k)"

fun dict_del :: "('k \<times> 'v) list \<Rightarrow> 'k \<Rightarrow> ('k \<times> 'v) list" where
  "dict_del [] k = []"
| "dict_del ((k', v') # d) k = (if k' = k then d else (k', v') # dict_del d k)"

definition dict_values :: "('k \<times> 'v) list \<Rightarrow> 'v list" where
  "dict_values d = map snd d"

definition dict_keys :: "('k \<times> 'v) list \<Rightarrow> 'k list" where
  "dict_keys d = map fst d"

definition add_record :: "AddressBook \<Rightarrow> contact_record \<Rightarrow> AddressBook" where
  "add_record book r = dict_set book (name r) r"

definition find_record :: "AddressBook \<Rightarrow> pystr \<Rightarrow> contact_record option" where
  "find_record book n = dict_get book n"

definition delete_record :: "AddressBook \<Rightarrow> pystr \<Rightarrow> AddressBook" where
  "delete_record book n = (if dict_get book n \<noteq> None then dict_del book n else book)"

definition adjust_for_weekend :: "date \<Rightarrow> date result" where
  "adjust_for_weekend date_obj' =
     (if weekday date_obj' = 5 then date_add_days date_obj' 2
      else if weekday date_obj' = 6 then date_add_days date_obj' 1
      else Inr date_obj')"

text \<open>
  The body of the loop of \<^verbatim>\<open>get_upcoming_birthdays\<close> for one record: the entry to
  append (\<open>None\<close> when the record is skipped), or the exception raised. An entry is the
  pair of the values under \<^verbatim>\<open>"name"\<close> and \<^verbatim>\<open>"birthday"\<close>.
\<close>

definition upcoming_entry ::
  "date \<Rightarrow> int \<Rightarrow> contact_record \<Rightarrow> (pystr \<times> pystr) option result" where
  "upcoming_entry today days r =
     (case birthday r of
        None \<Rightarrow> Inr None
      | Some b \<Rightarrow>
          (case date_obj b of
             Inl e \<Rightarrow> Inl e
           | Inr bday \<Rightarrow>
               (case replace_year bday (year today) of
                  Inl e \<Rightarrow> Inl e
                | Inr birthday_this_year \<Rightarrow>
                    (case (if date_less birthday_this_year today
                           then replace_year birthday_this_year (year today + 1)
                           else Inr birthday_this_year) of
                       Inl e \<Rightarrow> Inl e
                     | Inr birthday_this_year \<Rightarrow>
                         if 0 \<le> days_between birthday_this_year today
                            \<and> days_between birthday_this_year today \<le> days
                         then (case adjust_for_weekend birthday_this_year of
                                 Inl e \<Rightarrow> Inl e
                               | Inr adjusted \<Rightarrow> Inr (Some (name r, strftime adjusted)))
                         else Inr None))))"

fun upcoming_loop ::
  "date \<Rightarrow> int \<Rightarrow> contact_record list \<Rightarrow> (pystr \<times> pystr) list
     \<Rightarrow> (pystr \<times> pystr) list result" where
  "upcoming_loop today days [] upcoming_birthdays = Inr upcoming_birthdays"
| "upcoming_loop today days (r # rs) upcoming_birthdays =
     (case upcoming_entry today days r of
        Inl e \<Rightarrow> Inl e
      | Inr None \<Rightarrow> upcoming_loop today days rs upcoming_birthdays
      | Inr (Some entry) \<Rightarrow> upcoming_loop today days rs (upcoming_birthdays @ [entry]))"

text \<open>\<^verbatim>\<open>date.today()\<close> is the parameter \<open>today\<close>.\<close>

definition get_upcoming_birthdays ::
  "AddressBook \<Rightarrow> int \<Rightarrow> date \<Rightarrow> (pystr \<times> pystr) list result" where
  "get_upcoming_birthdays book days today = upcoming_loop today days (dict_values book) []"

text \<open>
  The vocabulary of the statements about \<^verbatim>\<open>get_upcoming_birthdays\<close>, after the words
  of the specification. \<open>birthday_date\<close> is the calendar date of the birthday of a
  record that has one. \<open>occurrence\<close> is this year's occurrence of a birthday, month and
  day fixed, advanced to next year if it is strictly before today; it exists when the
  month has that day in the year it falls in. \<open>shifted\<close> moves a Saturday two days and
  a Sunday one day forward. \<open>spec_upcoming\<close> lists, in the order of the book, the
  records whose occurrence lies 0 to \<open>days\<close> days after today, each with its shifted
  date as text.
\<close>

definition valid_date :: "date \<Rightarrow> bool" where
  "valid_date d = valid_ymd (year d) (month d) (day d)"

definition birthday_date :: "contact_record \<Rightarrow> date option" where
  "birthday_date r =
     (case birthday r of
        None \<Rightarrow> None
      | Some b \<Rightarrow> (case date_obj b of Inl e \<Rightarrow> None | Inr d \<Rightarrow> Some d))"

definition in_year :: "date \<Rightarrow> int \<Rightarrow> date" where
  "in_year d y = d\<lparr>year := y\<rparr>"

definition exists_in_year :: "date \<Rightarrow> int \<Rightarrow> bool" where
  "exists_in_year d y = (day d \<le> days_in_month y (month d))"

definition occurrence :: "date \<Rightarrow> date \<Rightarrow> date" where
  "occurrence today bday =
     (if date_less (in_year bday (year today)) today then in_year bday (year today + 1)
      else in_year bday (year today))"

definition occurrence_exists :: "date \<Rightarrow> date \<Rightarrow> bool" where
  "occurrence_exists today bday =
     (exists_in_year bday (year today)
      \<and> (if date_less (in_year bday (year today)) today
         then exists_in_year bday (year today + 1) else True))"

definition plus_days :: "date \<Rightarrow> int \<Rightarrow> date" where
  "plus_days d k =
     (case ord2ymd (toordinal d + k) of (y, m, d') \<Rightarrow> \<lparr>year = y, month = m, day = d'\<rparr>)"

definition shifted :: "date \<Rightarrow> date" where
  "shifted d =
     (if weekday d = 5 then plus_days d 2 else if weekday d = 6 then plus_days d 1 else d)"

definition spec_entry :: "date \<Rightarrow> int \<Rightarrow> contact_record \<Rightarrow> (pystr \<times> pystr) option" where
  "spec_entry today days r =
     (case birthday_date r of
        None \<Rightarrow> None
      | Some bday \<Rightarrow>
          if 0 \<le> days_between (occurrence today bday) today
             \<and> days_between (occurrence today bday) today \<le> days
          then Some (name r, strftime (shifted (occurrence today bday)))
          else None)"

definition spec_upcoming :: "AddressBook \<Rightarrow> int \<Rightarrow> date \<Rightarrow> (pystr \<times> pystr) list" where
  "spec_upcoming book days today = List.map_filter (spec_entry today days) (dict_values book)"

text \<open>
  The birthdays of a book are validated when each was accepted by \<^verbatim>\<open>Birthday\<close>, as
  \<^verbatim>\<open>add_birthday\<close> sees to. A record has a leap-day birthday when its birthday is a
  29 February.
\<close>

definition birthdays_validated :: "AddressBook \<Rightarrow> bool" where
  "birthdays_validated book =
     list_all (\<lambda>r. case birthday r of None \<Rightarrow> True | Some b \<Rightarrow> Birthday b = Inr b)
       (dict_values book)"

definition all_occurrences_exist :: "AddressBook \<Rightarrow> date \<Rightarrow> bool" where
  "all_occurrences_exist book today =
     list_all (\<lambda>r. case birthday_date r of None \<Rightarrow> True | Some d \<Rightarrow> occurrence_exists today d)
       (dict_values book)"

definition leap_day_birthday :: "contact_record \<Rightarrow> bool" where
  "leap_day_birthday r =
     (case birthday_date r of None \<Rightarrow> False | Some d \<Rightarrow> month d = 2 \<and> day d = 29)"

text \<open>
  The operations of the book, to speak of the books they reach from the empty one.
  \<^verbatim>\<open>find\<close> and \<^verbatim>\<open>get_upcoming_birthdays\<close> assign nothing in the book: it is as
  before after the call, whatever they return or raise.
\<close>

datatype book_op =
    AddRecord contact_record
  | Find pystr
  | Delete pystr
  | GetUpcomingBirthdays int date

fun apply_op :: "AddressBook \<Rightarrow> book_op \<Rightarrow> AddressBook" where
  "apply_op book (AddRecord r) = add_record book r"
| "apply_op book (Find n) = (case find_record book n of None \<Rightarrow> book | Some r \<Rightarrow> book)"
| "apply_op book (Delete n) = delete_record book n"
| "apply_op book (GetUpcomingBirthdays days today) =
     (case get_upcoming_birthdays book days today of Inl e \<Rightarrow> book | Inr upcoming \<Rightarrow> book)"

definition run_ops :: "book_op list \<Rightarrow> AddressBook" where
  "run_ops ops = foldl apply_op [] ops"

text \<open>The invariant of the book: every record is stored under its own name.\<close>

definition name_is_key :: "AddressBook \<Rightarrow> bool" where
  "name_is_key book = list_all (\<lambda>(k, r). name r = k) book"

section \<open>Command handlers\<close>

text \<open>
  A handler takes the argument tokens and the book; the function under the decorator
  returns its string or the exception raised, together with the book as it leaves it.
  \<^verbatim>\<open>input_error\<close> turns every exception into a string.
\<close>

definition input_error ::
  "(pystr list \<Rightarrow> AddressBook \<Rightarrow> pystr result \<times> AddressBook)
     \<Rightarrow> pystr list \<Rightarrow> AddressBook \<Rightarrow> pystr \<times> AddressBook" where
  "input_error func args book =
     (case func args book of
        (Inr v, book') \<Rightarrow> (v, book')
      | (Inl (ValueError msg), book') \<Rightarrow>
          (if msg \<noteq> [] then msg else lit ''Not enough arguments.'', book')
      | (Inl (AttributeError msg), book') \<Rightarrow> (lit ''Contact not found.'', book')
      | (Inl (KeyError msg), book') \<Rightarrow> (lit ''Contact not found.'', book')
      | (Inl (OverflowError msg), book') \<Rightarrow> (lit ''Error: '' @ msg, book'))"

text \<open>Unpacking a list of the wrong length into \<open>expected\<close> names.\<close>

definition unpack_error :: "nat \<Rightarrow> nat \<Rightarrow> error" where
  "unpack_error expected got =
     (if got < expected
      then ValueError (lit ''not enough values to unpack (expected '' @ str_nat expected
             @ lit '', got '' @ str_nat got @ lit '')'')
      else ValueError (lit ''too many values to unpack (expected '' @ str_nat expected
             @ lit '')''))"

text \<open>A method call on \<^verbatim>\<open>None\<close>; the error carries the name of the attribute.\<close>

definition none_has_no :: "string \<Rightarrow> error" where
  "none_has_no attr = AttributeError (lit attr)"

text \<open>
  The record a handler works on is the object stored in the book under the name it
  was looked up with (or just inserted under), so what a method does to the record
  shows in the book at that key.
\<close>

definition mutated :: "AddressBook \<Rightarrow> pystr \<Rightarrow> contact_record \<Rightarrow> AddressBook" where
  "mutated book n r = map (\<lambda>(k, v). if k = n then (k, r) else (k, v)) book"

definition add_contact_func :: "pystr list \<Rightarrow> AddressBook \<Rightarrow> pystr result \<times> AddressBook" where
  "add_contact_func args book =
     (case args of
        [n, phone] \<Rightarrow>
          (case (case find_record book n of
                   None \<Rightarrow>
                     (case Record n of
                        Inl e \<Rightarrow> Inl e
                      | Inr record \<Rightarrow>
                          Inr (record, add_record book record, lit ''Contact added.''))
                 | Some record \<Rightarrow> Inr (record, book, lit ''Contact updated.'')) of
             Inl e \<Rightarrow> (Inl e, book)
           | Inr (record, book, message) \<Rightarrow>
               (case add_phone record phone of
                  (Inl e, record) \<Rightarrow> (Inl e, mutated book n record)
                | (Inr u, record) \<Rightarrow> (Inr message, mutated book n record)))
      | _ \<Rightarrow> (Inl (unpack_error 2 (length args)), book))"

definition add_contact :: "pystr list \<Rightarrow> AddressBook \<Rightarrow> pystr \<times> AddressBook" where
  "add_contact = input_error add_contact_func"

definition change_contact_func ::
  "pystr list \<Rightarrow> AddressBook \<Rightarrow> pystr result \<times> AddressBook" where
  "change_contact_func args book =
     (case args of
        [n, old_phone, new_phone] \<Rightarrow>
          (case find_record book n of
             None \<Rightarrow> (Inl (none_has_no ''edit_phone''), book)
           | Some record \<Rightarrow>
               (case edit_phone record old_phone new_phone of
                  (Inl e, record) \<Rightarrow> (Inl e, mutated book n record)
                | (Inr u, record) \<Rightarrow> (Inr (lit ''Phone updated.''), mutated book n record)))
      | _ \<Rightarrow> (Inl (unpack_error 3 (length args)), book))"

definition change_contact :: "pystr list \<Rightarrow> AddressBook \<Rightarrow> pystr \<times> AddressBook" where
  "change_contact = input_error change_contact_func"

definition add_birthday_func ::
  "pystr list \<Rightarrow> AddressBook \<Rightarrow> pystr result \<times> AddressBook" where
  "add_birthday_func args book =
     (case args of
        [n, bday] \<Rightarrow>
          (case find_record book n of
             None \<Rightarrow> (Inl (none_has_no ''add_birthday''), book)
           | Some record \<Rightarrow>
               (case add_birthday record bday of
                  (Inl e, record) \<Rightarrow> (Inl e, mutated book n record)
                | (Inr u, record) \<Rightarrow> (Inr (lit ''Birthday added.''), mutated book n record)))
      | _ \<Rightarrow> (Inl (unpack_error 2 (length args)), book))"

text \<open>The handler of \<^verbatim>\<open>add-birthday\<close> (the module-level \<^verbatim>\<open>add_birthday\<close>).\<close>

definition add_birthday_handler :: "pystr list \<Rightarrow> AddressBook \<Rightarrow> pystr \<times> AddressBook" where
  "add_birthday_handler = input_error add_birthday_func"

definition birthdays_func ::
  "date \<Rightarrow> pystr list \<Rightarrow> AddressBook \<Rightarrow> pystr result \<times> AddressBook" where
  "birthdays_func today args book =
     (case get_upcoming_birthdays book 7 today of
        Inl e \<Rightarrow> (Inl e, book)
      | Inr upcoming \<Rightarrow>
          if upcoming = [] then (Inr (lit ''No upcoming birthdays.''), book)
          else (Inr (join [10] (map (\<lambda>(n, b). n @ lit '': '' @ b) upcoming)), book))"

definition birthdays :: "date \<Rightarrow> pystr list \<Rightarrow> AddressBook \<Rightarrow> pystr \<times> AddressBook" where
  "birthdays today = input_error (birthdays_func today)"

text \<open>
  The loop of \<^verbatim>\<open>main\<close> hands every command to its handler with the one book of the
  process. The commands that only read the book (\<^verbatim>\<open>hello\<close>, \<^verbatim>\<open>phone\<close>, \<^verbatim>\<open>all\<close>,
  \<^verbatim>\<open>show-birthday\<close>, an invalid command) are \<open>ReadOnly\<close>; \<^verbatim>\<open>birthdays\<close> carries the
  date of the day it is entered. \<open>run_commands\<close> is the book after a sequence of
  commands, starting from the empty book.
\<close>

datatype command =
    Add "pystr list"
  | Change "pystr list"
  | AddBirthday "pystr list"
  | Birthdays date "pystr list"
  | ReadOnly

fun execute :: "AddressBook \<Rightarrow> command \<Rightarrow> AddressBook" where
  "execute book (Add args) = snd (add_contact args book)"
| "execute book (Change args) = snd (change_contact args book)"
| "execute book (AddBirthday args) = snd (add_birthday_handler args book)"
| "execute book (Birthdays today args) = snd (birthdays today args book)"
| "execute book ReadOnly = book"

definition run_commands :: "command list \<Rightarrow> AddressBook" where
  "run_commands cmds = foldl execute [] cmds"

chapter \<open>Properties\<close>

section \<open>Field validators and records\<close>

lemmas char_defs = isdecimal_char_def decimal_run_def decimal_zeros_def decimal_value_def
  isdigit_char_def other_digit_ranges_def isdigit_def chr_is_def chr_range_def lit_def

lemma Phone_cases:
  "Phone p = (if length p = 10 \<and> list_all isdigit_char p then Inr p
              else Inl (ValueError (lit ''Phone must contain exactly 10 digits'')))"
  by (auto simp: Phone_def isdigit_def)

lemma Phone_Inr: "Phone p = Inr v \<Longrightarrow> v = p"
  by (simp add: Phone_cases split: if_splits)

lemma Phone_Inl: "Phone p = Inl e \<Longrightarrow> e = ValueError (lit ''Phone must contain exactly 10 digits'')"
  by (simp add: Phone_cases split: if_splits)

lemma ascii_digit_isdigit_char: "ascii_digit c \<Longrightarrow> isdigit_char c"
  by (simp add: ascii_digit_def isdigit_char_def isdecimal_char_def decimal_run_def
        decimal_zeros_def)

lemma list_all_ascii_isdigit: "list_all ascii_digit p \<Longrightarrow> list_all isdigit_char p"
  by (induction p) (simp_all add: ascii_digit_isdigit_char)

text \<open>
  C3 (as the code has it). \<^verbatim>\<open>Phone(p)\<close> succeeds exactly when \<open>p\<close> has ten characters and
  every one of them is a digit for \<^verbatim>\<open>str.isdigit\<close>, that is a Unicode character of
  Numeric_Type Decimal or Digit; otherwise it raises \<^verbatim>\<open>ValueError\<close> with the message
  "Phone must contain exactly 10 digits". Ten ASCII digits are always accepted.
\<close>

theorem Phone_succeeds_iff:
  "((\<exists>v. Phone p = Inr v) \<longleftrightarrow> length p = 10 \<and> list_all isdigit_char p)
   \<and> (length p = 10 \<and> list_all isdigit_char p \<longrightarrow> Phone p = Inr p)
   \<and> (\<not> (length p = 10 \<and> list_all isdigit_char p) \<longrightarrow>
        Phone p = Inl (ValueError (lit ''Phone must contain exactly 10 digits'')))
   \<and> (length p = 10 \<and> list_all ascii_digit p \<longrightarrow> Phone p = Inr p)"
  by (simp add: Phone_cases list_all_ascii_isdigit)

theorem Phone_succeeds_iff_witness:
  "Phone (lit ''1234567890'') = Inr (lit ''1234567890'')
   \<and> Phone (lit ''12345'') = Inl (ValueError (lit ''Phone must contain exactly 10 digits''))
   \<and> Phone (lit ''12345abcde'') = Inl (ValueError (lit ''Phone must contain exactly 10 digits''))"
  using Phone_succeeds_iff [of "lit ''1234567890''"] Phone_succeeds_iff [of "lit ''12345''"]
    Phone_succeeds_iff [of "lit ''12345abcde''"]
  by (simp add: char_defs ascii_digit_def)

text \<open>
  C3 as stated fails: the ten Arabic-Indic digits U+0660 to U+0669 are no ASCII digits,
  and \<^verbatim>\<open>Phone\<close> accepts them.
\<close>

theorem Phone_not_only_ascii:
  "Phone [1632, 1633, 1634, 1635, 1636, 1637, 1638, 1639, 1640, 1641]
     = Inr [1632, 1633, 1634, 1635, 1636, 1637, 1638, 1639, 1640, 1641]
   \<and> length [1632, 1633, 1634, 1635, 1636, 1637, 1638, 1639, 1640, 1641 :: nat] = 10
   \<and> \<not> list_all ascii_digit [1632, 1633, 1634, 1635, 1636, 1637, 1638, 1639, 1640, 1641]"
  by (simp add: Phone_def char_defs ascii_digit_def)

subsection \<open>The phones of a record\<close>

lemma find_phone_loop_None: "find_phone_loop ps x = None \<longleftrightarrow> x \<notin> set ps"
  by (induction ps) auto

lemma find_phone_loop_Some: "find_phone_loop ps x = Some y \<longleftrightarrow> y = x \<and> x \<in> set ps"
  by (induction ps) auto

lemma list_index_first: "x \<notin> set pre \<Longrightarrow> list_index (pre @ x # post) x = Some (length pre)"
  by (induction pre) auto

lemma list_remove_first: "x \<notin> set pre \<Longrightarrow> list_remove (pre @ x # post) x = Some (pre @ post)"
  by (induction pre) auto

lemma edit_phone_absent:
  "old \<notin> set (phones r) \<Longrightarrow>
   edit_phone r old new = (Inl (ValueError (lit ''Phone '' @ old @ lit '' not found'')), r)"
  using find_phone_loop_None [of "phones r" old] by (simp add: edit_phone_def find_phone_def)

lemma edit_phone_invalid:
  "old \<in> set (phones r) \<Longrightarrow> Phone new = Inl e \<Longrightarrow> edit_phone r old new = (Inl e, r)"
  by (cases "find_phone_loop (phones r) old")
     (simp_all add: edit_phone_def find_phone_def find_phone_loop_None)

lemma edit_phone_replaces:
  assumes "phones r = pre @ old # post" "old \<notin> set pre" "Phone new = Inr v"
  shows "edit_phone r old new = (Inr (), r\<lparr>phones := pre @ new # post\<rparr>)"
proof -
  have f: "find_phone r old = Some old"
    using assms(1) by (simp add: find_phone_def find_phone_loop_Some)
  have i: "list_index (phones r) old = Some (length pre)"
    using assms(1,2) by (simp add: list_index_first)
  have v: "v = new" using assms(3) by (rule Phone_Inr)
  show ?thesis
    using f i v assms(1,3) by (simp add: edit_phone_def)
qed

text \<open>
  C6. When no stored phone equals \<open>old\<close>, \<^verbatim>\<open>edit_phone\<close> raises \<^verbatim>\<open>ValueError\<close> with
  the message "Phone \<open>old\<close> not found" and the record is unchanged. Otherwise the new
  string is validated: if it is invalid the validation error is raised and the record
  is unchanged, and if it is valid the first entry equal to \<open>old\<close> is replaced where it
  stands, all entries before and after it staying as they are.
\<close>

theorem edit_phone_spec:
  "(old \<notin> set (phones r) \<longrightarrow>
      edit_phone r old new = (Inl (ValueError (lit ''Phone '' @ old @ lit '' not found'')), r))
   \<and> (old \<in> set (phones r) \<longrightarrow>
        (\<forall>e. Phone new = Inl e \<longrightarrow> edit_phone r old new = (Inl e, r))
      \<and> (\<forall>v. Phone new = Inr v \<longrightarrow>
            (\<exists>pre post. phones r = pre @ old # post \<and> old \<notin> set pre
               \<and> edit_phone r old new = (Inr (), r\<lparr>phones := pre @ new # post\<rparr>))))"
proof (intro conjI impI allI)
  assume "old \<notin> set (phones r)"
  then show "edit_phone r old new
      = (Inl (ValueError (lit ''Phone '' @ old @ lit '' not found'')), r)"
    by (rule edit_phone_absent)
next
  fix e assume "old \<in> set (phones r)" "Phone new = Inl e"
  then show "edit_phone r old new = (Inl e, r)" by (rule edit_phone_invalid)
next
  fix v assume m: "old \<in> set (phones r)" and p: "Phone new = Inr v"
  from m obtain pre post where s: "phones r = pre @ old # post" "old \<notin> set pre"
    by (auto dest: split_list_first)
  from s p have "edit_phone r old new = (Inr (), r\<lparr>phones := pre @ new # post\<rparr>)"
    by (rule edit_phone_replaces)
  with s show "\<exists>pre post. phones r = pre @ old # post \<and> old \<notin> set pre
      \<and> edit_phone r old new = (Inr (), r\<lparr>phones := pre @ new # post\<rparr>)"
    by blast
qed

theorem edit_phone_spec_witness:
  "edit_phone \<lparr>name = lit ''bob'', phones = [lit ''1111111111'', lit ''2222222222'', lit ''1111111111''],
       birthday = None\<rparr> (lit ''2222222222'') (lit ''3333333333'')
     = (Inr (), \<lparr>name = lit ''bob'', phones = [lit ''1111111111'', lit ''3333333333'', lit ''1111111111''],
       birthday = None\<rparr>)
   \<and> edit_phone \<lparr>name = lit ''bob'', phones = [lit ''1111111111''], birthday = None\<rparr>
       (lit ''2222222222'') (lit ''3333333333'')
     = (Inl (ValueError (lit ''Phone 2222222222 not found'')),
        \<lparr>name = lit ''bob'', phones = [lit ''1111111111''], birthday = None\<rparr>)"
  using edit_phone_spec [of "lit ''2222222222''"
      "\<lparr>name = lit ''bob'', phones = [lit ''1111111111'', lit ''2222222222'', lit ''1111111111''],
        birthday = None\<rparr>" "lit ''3333333333''"]
    edit_phone_spec [of "lit ''2222222222''"
      "\<lparr>name = lit ''bob'', phones = [lit ''1111111111''], birthday = None\<rparr>" "lit ''3333333333''"]
  by (simp add: edit_phone_def find_phone_def Phone_def char_defs)

lemma add_phone_valid: "Phone p = Inr p \<Longrightarrow> add_phone r p = (Inr (), r\<lparr>phones := phones r @ [p]\<rparr>)"
  by (simp add: add_phone_def)

lemma remove_phone_absent: "q \<notin> set (phones r) \<Longrightarrow> remove_phone r q = (Inr (), r)"
  using find_phone_loop_None [of "phones r" q] by (simp add: remove_phone_def find_phone_def)

lemma remove_phone_first:
  assumes "phones r = pre @ q # post" "q \<notin> set pre"
  shows "remove_phone r q = (Inr (), r\<lparr>phones := pre @ post\<rparr>)"
proof -
  have "find_phone r q = Some q"
    using assms(1) by (simp add: find_phone_def find_phone_loop_Some)
  moreover have "list_remove (phones r) q = Some (pre @ post)"
    using assms by (simp add: list_remove_first)
  ultimately show ?thesis by (simp add: remove_phone_def)
qed

lemma remove_phone_ok: "fst (remove_phone r q) = Inr ()"
proof (cases "q \<in> set (phones r)")
  case True
  then obtain pre post where "phones r = pre @ q # post" "q \<notin> set pre"
    by (auto dest: split_list_first)
  then show ?thesis by (simp add: remove_phone_first)
next
  case False
  then show ?thesis by (simp add: remove_phone_absent)
qed

lemma find_after_add_remove:
  assumes "Phone p = Inr p"
  shows "find_phone (snd (remove_phone (snd (add_phone r p)) p)) p = None \<longleftrightarrow> p \<notin> set (phones r)"
proof (cases "p \<in> set (phones r)")
  case True
  then obtain pre post where s: "phones r = pre @ p # post" "p \<notin> set pre"
    by (auto dest: split_list_first)
  have "remove_phone (r\<lparr>phones := phones r @ [p]\<rparr>) p
      = (Inr (), r\<lparr>phones := phones r @ [p]\<rparr>\<lparr>phones := pre @ (post @ [p])\<rparr>)"
    by (rule remove_phone_first) (simp_all add: s)
  then show ?thesis
    using True assms by (simp add: add_phone_valid find_phone_def find_phone_loop_None)
next
  case False
  have "remove_phone (r\<lparr>phones := phones r @ [p]\<rparr>) p
      = (Inr (), r\<lparr>phones := phones r @ [p]\<rparr>\<lparr>phones := phones r @ []\<rparr>)"
    by (rule remove_phone_first) (simp_all add: False)
  then show ?thesis
    using False assms by (simp add: add_phone_valid find_phone_def find_phone_loop_None)
qed

text \<open>
  C8 (as the code has it). For a valid phone \<open>p\<close>: \<^verbatim>\<open>add_phone\<close> appends \<open>p\<close>, and
  \<^verbatim>\<open>find_phone\<close> then returns it; after a following \<^verbatim>\<open>remove_phone\<close> the phone is
  absent exactly when the record did not hold \<open>p\<close> before the call of \<^verbatim>\<open>add_phone\<close>
  (phones are never deduplicated). \<^verbatim>\<open>remove_phone\<close> never raises, leaves the record
  as it is when no phone matches, and otherwise removes the first matching phone only.
\<close>

theorem phone_round_trip:
  assumes "Phone p = Inr p"
  shows "add_phone r p = (Inr (), r\<lparr>phones := phones r @ [p]\<rparr>)
     \<and> find_phone (snd (add_phone r p)) p = Some p
     \<and> (find_phone (snd (remove_phone (snd (add_phone r p)) p)) p = None
          \<longleftrightarrow> p \<notin> set (phones r))
     \<and> fst (remove_phone r' q) = Inr ()
     \<and> (q \<notin> set (phones r') \<longrightarrow> remove_phone r' q = (Inr (), r'))
     \<and> (\<forall>pre post. phones r' = pre @ q # post \<and> q \<notin> set pre \<longrightarrow>
           remove_phone r' q = (Inr (), r'\<lparr>phones := pre @ post\<rparr>))"
proof -
  have a: "add_phone r p = (Inr (), r\<lparr>phones := phones r @ [p]\<rparr>)"
    using assms by (rule add_phone_valid)
  have b: "find_phone (snd (add_phone r p)) p = Some p"
    by (simp add: a find_phone_def find_phone_loop_Some)
  have c: "find_phone (snd (remove_phone (snd (add_phone r p)) p)) p = None
      \<longleftrightarrow> p \<notin> set (phones r)"
    using assms by (rule find_after_add_remove)
  have d: "fst (remove_phone r' q) = Inr ()"
    by (rule remove_phone_ok)
  have e: "q \<notin> set (phones r') \<longrightarrow> remove_phone r' q = (Inr (), r')"
    by (simp add: remove_phone_absent)
  have f: "\<forall>pre post. phones r' = pre @ q # post \<and> q \<notin> set pre \<longrightarrow>
      remove_phone r' q = (Inr (), r'\<lparr>phones := pre @ post\<rparr>)"
    by (simp add: remove_phone_first)
  show ?thesis
    using a b c d e f by (intro conjI)
qed

theorem phone_round_trip_witness:
  "Phone (lit ''1234567890'') = Inr (lit ''1234567890'')
   \<and> find_phone (snd (add_phone \<lparr>name = lit ''bob'', phones = [], birthday = None\<rparr>
        (lit ''1234567890''))) (lit ''1234567890'') = Some (lit ''1234567890'')
   \<and> find_phone (snd (remove_phone (snd (add_phone
        \<lparr>name = lit ''bob'', phones = [], birthday = None\<rparr> (lit ''1234567890'')))
        (lit ''1234567890''))) (lit ''1234567890'') = None"
proof -
  have v: "Phone (lit ''1234567890'') = Inr (lit ''1234567890'')"
    by (simp add: Phone_def char_defs)
  show ?thesis
    using v phone_round_trip [OF v, of "\<lparr>name = lit ''bob'', phones = [], birthday = None\<rparr>"]
    by (simp add: add_phone_def)
qed

text \<open>
  C8 as stated fails on a record that already holds the phone: one copy is left after
  \<^verbatim>\<open>add_phone\<close> and \<^verbatim>\<open>remove_phone\<close>, and \<^verbatim>\<open>find_phone\<close> finds it.
\<close>

theorem remove_after_add_duplicate:
  "Phone (lit ''1234567890'') = Inr (lit ''1234567890'')
   \<and> find_phone (snd (remove_phone (snd (add_phone
        \<lparr>name = lit ''bob'', phones = [lit ''1234567890''], birthday = None\<rparr>
        (lit ''1234567890''))) (lit ''1234567890''))) (lit ''1234567890'')
      = Some (lit ''1234567890'')"
  by (simp add: Phone_def char_defs add_phone_def remove_phone_def find_phone_def)

section \<open>The address book\<close>

lemma dict_keys_dict_set:
  "dict_keys (dict_set d k v) = (if k \<in> set (dict_keys d) then dict_keys d else dict_keys d @ [k])"
  by (induction d k v rule: dict_set.induct) (auto simp: dict_keys_def split: if_splits)

lemma dict_set_absent: "k \<notin> set (dict_keys d) \<Longrightarrow> dict_set d k v = d @ [(k, v)]"
  by (induction d k v rule: dict_set.induct) (auto simp: dict_keys_def)

lemma dict_get_dict_set: "dict_get (dict_set d k v) k' = (if k' = k then Some v else dict_get d k')"
  by (induction d k v rule: dict_set.induct) auto

lemma dict_get_None: "dict_get d k = None \<longleftrightarrow> k \<notin> set (dict_keys d)"
  by (induction d k rule: dict_get.induct) (auto simp: dict_keys_def)

lemma dict_get_Some: "dict_get d k = Some v \<Longrightarrow> (k, v) \<in> set d"
  by (induction d k rule: dict_get.induct) (auto split: if_splits)

lemma set_dict_del: "set (dict_del d k) \<subseteq> set d"
  by (induction d k rule: dict_del.induct) auto

lemma dict_keys_dict_del: "distinct (dict_keys d) \<Longrightarrow> dict_keys (dict_del d k) = removeAll k (dict_keys d)"
  by (induction d k rule: dict_del.induct) (auto simp: dict_keys_def rev_image_eqI)

lemma distinct_dict_set: "distinct (dict_keys d) \<Longrightarrow> distinct (dict_keys (dict_set d k v))"
  by (simp add: dict_keys_dict_set)

lemma distinct_add_record: "distinct (dict_keys book) \<Longrightarrow> distinct (dict_keys (add_record book r))"
  by (simp add: add_record_def distinct_dict_set)

lemma distinct_delete_record:
  "distinct (dict_keys book) \<Longrightarrow> distinct (dict_keys (delete_record book n))"
  by (simp add: delete_record_def dict_keys_dict_del distinct_removeAll)

lemma count_list_distinct: "distinct xs \<Longrightarrow> x \<in> set xs \<Longrightarrow> count_list xs x = 1"
  by (induction xs) auto

text \<open>
  C7. \<^verbatim>\<open>add_record\<close> is a plain assignment in the dictionary and cannot raise. On a
  book with one entry per name, adding two records of the same name one after the
  other leaves one entry for that name, which holds the second record; the first
  addition fixes the position of the entry and the second changes no key. Adding and
  deleting keep the names of the book distinct.
\<close>

theorem add_record_overwrites:
  assumes "distinct (dict_keys book)" and "name r1 = name r2"
  shows "count_list (dict_keys (add_record (add_record book r1) r2)) (name r2) = 1
     \<and> find_record (add_record (add_record book r1) r2) (name r2) = Some r2
     \<and> dict_keys (add_record (add_record book r1) r2) = dict_keys (add_record book r1)
     \<and> distinct (dict_keys (add_record book r1))
     \<and> distinct (dict_keys (add_record (add_record book r1) r2))
     \<and> distinct (dict_keys (delete_record book n))"
proof -
  let ?b1 = "add_record book r1" and ?b2 = "add_record (add_record book r1) r2"
  have d1: "distinct (dict_keys ?b1)"
    using assms(1) by (rule distinct_add_record)
  have d2: "distinct (dict_keys ?b2)"
    using d1 by (rule distinct_add_record)
  have m1: "name r2 \<in> set (dict_keys ?b1)"
    using assms(2) by (simp add: add_record_def dict_keys_dict_set)
  have k: "dict_keys ?b2 = dict_keys ?b1"
    using m1 by (simp add: add_record_def [of "add_record book r1"] dict_keys_dict_set)
  have c: "count_list (dict_keys ?b2) (name r2) = 1"
    using d1 m1 k by (simp add: count_list_distinct)
  have f: "find_record ?b2 (name r2) = Some r2"
    by (simp add: find_record_def add_record_def [of "add_record book r1"] dict_get_dict_set)
  have dd: "distinct (dict_keys (delete_record book n))"
    using assms(1) by (rule distinct_delete_record)
  show ?thesis using c f k d1 d2 dd by (intro conjI)
qed

theorem add_record_overwrites_witness:
  "add_record (add_record [] \<lparr>name = lit ''bob'', phones = [], birthday = None\<rparr>)
       \<lparr>name = lit ''bob'', phones = [lit ''1234567890''], birthday = None\<rparr>
     = [(lit ''bob'', \<lparr>name = lit ''bob'', phones = [lit ''1234567890''], birthday = None\<rparr>)]
   \<and> count_list (dict_keys (add_record (add_record []
         \<lparr>name = lit ''bob'', phones = [], birthday = None\<rparr>)
         \<lparr>name = lit ''bob'', phones = [lit ''1234567890''], birthday = None\<rparr>)) (lit ''bob'') = 1"
  using add_record_overwrites [of "[]" "\<lparr>name = lit ''bob'', phones = [], birthday = None\<rparr>"
      "\<lparr>name = lit ''bob'', phones = [lit ''1234567890''], birthday = None\<rparr>"]
  by (simp add: add_record_def dict_keys_def)

lemma name_is_key_dict_set: "name_is_key d \<Longrightarrow> name r = k \<Longrightarrow> name_is_key (dict_set d k r)"
  by (induction d k r rule: dict_set.induct) (auto simp: name_is_key_def)

lemma name_is_key_dict_del: "name_is_key d \<Longrightarrow> name_is_key (dict_del d k)"
  by (induction d k rule: dict_del.induct) (auto simp: name_is_key_def)

lemma name_is_key_apply_op: "name_is_key book \<Longrightarrow> name_is_key (apply_op book op)"
  by (cases op)
     (simp_all add: add_record_def delete_record_def name_is_key_dict_set name_is_key_dict_del
        split: option.splits sum.splits)

lemma name_is_key_foldl: "name_is_key book \<Longrightarrow> name_is_key (foldl apply_op book ops)"
  by (induction ops arbitrary: book) (simp_all add: name_is_key_apply_op)

lemma distinct_apply_op: "distinct (dict_keys book) \<Longrightarrow> distinct (dict_keys (apply_op book op))"
  by (cases op)
     (simp_all add: distinct_add_record distinct_delete_record split: option.splits sum.splits)

lemma distinct_foldl:
  "distinct (dict_keys book) \<Longrightarrow> distinct (dict_keys (foldl apply_op book ops))"
  by (induction ops arbitrary: book) (simp_all add: distinct_apply_op)

text \<open>
  C9. In every book that the operations \<^verbatim>\<open>add_record\<close>, \<^verbatim>\<open>find\<close>, \<^verbatim>\<open>delete\<close> and
  \<^verbatim>\<open>get_upcoming_birthdays\<close> reach from the empty book, in any number and order, every
  record is stored under the key that equals its name (and no name occurs twice);
  so an entry found under a name is a record of that name.
\<close>

theorem name_is_key_invariant:
  "name_is_key (run_ops ops)
   \<and> distinct (dict_keys (run_ops ops))
   \<and> (\<forall>k r. find_record (run_ops ops) k = Some r \<longrightarrow> name r = k)"
proof -
  have i: "name_is_key (run_ops ops)"
    unfolding run_ops_def by (rule name_is_key_foldl) (simp add: name_is_key_def)
  have d: "distinct (dict_keys (run_ops ops))"
    unfolding run_ops_def by (rule distinct_foldl) (simp add: dict_keys_def)
  have "name r = k" if "find_record (run_ops ops) k = Some r" for k r
  proof -
    from that have "(k, r) \<in> set (run_ops ops)"
      by (simp add: find_record_def dict_get_Some)
    with i show ?thesis by (auto simp: name_is_key_def list_all_iff)
  qed
  with i d show ?thesis by blast
qed

theorem name_is_key_invariant_witness:
  "run_ops [AddRecord \<lparr>name = lit ''bob'', phones = [], birthday = None\<rparr>,
            AddRecord \<lparr>name = lit ''amy'', phones = [], birthday = None\<rparr>,
            Find (lit ''bob''), Delete (lit ''bob''),
            GetUpcomingBirthdays 7 \<lparr>year = 2024, month = 6, day = 7\<rparr>]
     = [(lit ''amy'', \<lparr>name = lit ''amy'', phones = [], birthday = None\<rparr>)]
   \<and> name_is_key [(lit ''amy'', \<lparr>name = lit ''amy'', phones = [], birthday = None\<rparr>)]"
proof -
  have r: "run_ops [AddRecord \<lparr>name = lit ''bob'', phones = [], birthday = None\<rparr>,
            AddRecord \<lparr>name = lit ''amy'', phones = [], birthday = None\<rparr>,
            Find (lit ''bob''), Delete (lit ''bob''),
            GetUpcomingBirthdays 7 \<lparr>year = 2024, month = 6, day = 7\<rparr>]
     = [(lit ''amy'', \<lparr>name = lit ''amy'', phones = [], birthday = None\<rparr>)]"
    by (simp add: run_ops_def add_record_def delete_record_def find_record_def lit_def
          get_upcoming_birthdays_def dict_values_def upcoming_entry_def)
  show ?thesis
    using r name_is_key_invariant [of "[AddRecord \<lparr>name = lit ''bob'', phones = [], birthday = None\<rparr>,
            AddRecord \<lparr>name = lit ''amy'', phones = [], birthday = None\<rparr>,
            Find (lit ''bob''), Delete (lit ''bob''),
            GetUpcomingBirthdays 7 \<lparr>year = 2024, month = 6, day = 7\<rparr>]"]
    by simp
qed

section \<open>The handlers \<^verbatim>\<open>add\<close> and \<^verbatim>\<open>change\<close>\<close>

lemma mutated_append_new:
  "n \<notin> set (dict_keys book) \<Longrightarrow> mutated (book @ [(n, r)]) n r' = book @ [(n, r')]"
  by (induction book) (auto simp: mutated_def dict_keys_def)

lemma Record_nonempty: "n \<noteq> [] \<Longrightarrow> Record n = Inr \<lparr>name = n, phones = [], birthday = None\<rparr>"
  by (simp add: Record_def Name_def)

lemma lit_Phone_msg_nonempty: "lit ''Phone must contain exactly 10 digits'' \<noteq> []"
  by (simp add: lit_def)

text \<open>
  C4. When \<^verbatim>\<open>add\<close> is called with a name (a non-empty string, as every argument
  token is) that the book does not hold and a phone that fails validation, the book
  afterwards holds, appended to its entries, a new record of that name with no phone
  and no birthday, and the handler returns the message of the validation error,
  "Phone must contain exactly 10 digits", not "Contact added.".
\<close>

theorem add_contact_invalid_phone:
  assumes "n \<noteq> []" and "find_record book n = None" and "Phone phone = Inl e"
  shows "add_contact [n, phone] book
     = (lit ''Phone must contain exactly 10 digits'',
        book @ [(n, \<lparr>name = n, phones = [], birthday = None\<rparr>)])
   \<and> lit ''Phone must contain exactly 10 digits'' \<noteq> lit ''Contact added.''"
proof -
  let ?r = "\<lparr>name = n, phones = [], birthday = None\<rparr>"
  have k: "n \<notin> set (dict_keys book)"
    using assms(2) by (simp add: find_record_def dict_get_None)
  have e: "e = ValueError (lit ''Phone must contain exactly 10 digits'')"
    using assms(3) by (rule Phone_Inl)
  have a: "add_record book ?r = book @ [(n, ?r)]"
    using k by (simp add: add_record_def dict_set_absent)
  have p: "add_phone ?r phone = (Inl e, ?r)"
    using assms(3) by (simp add: add_phone_def)
  have m: "mutated (book @ [(n, ?r)]) n ?r = book @ [(n, ?r)]"
    using k by (rule mutated_append_new)
  have "add_contact_func [n, phone] book = (Inl e, book @ [(n, ?r)])"
    using assms(1,2) a p m by (simp add: add_contact_func_def Record_nonempty)
  then have "add_contact [n, phone] book
      = (lit ''Phone must contain exactly 10 digits'', book @ [(n, ?r)])"
    using e lit_Phone_msg_nonempty by (simp add: add_contact_def input_error_def)
  moreover have "lit ''Phone must contain exactly 10 digits'' \<noteq> lit ''Contact added.''"
    by (simp add: lit_def)
  ultimately show ?thesis by (rule conjI)
qed

theorem add_contact_invalid_phone_witness:
  "add_contact [lit ''bob'', lit ''123''] []
     = (lit ''Phone must contain exactly 10 digits'',
        [(lit ''bob'', \<lparr>name = lit ''bob'', phones = [], birthday = None\<rparr>)])"
proof -
  have n: "lit ''bob'' \<noteq> []" by (simp add: lit_def)
  have f: "find_record [] (lit ''bob'') = None" by (simp add: find_record_def)
  have p: "Phone (lit ''123'') = Inl (ValueError (lit ''Phone must contain exactly 10 digits''))"
    by (simp add: Phone_def lit_def)
  show ?thesis using add_contact_invalid_phone [OF n f p] by simp
qed

lemma change_contact_unknown:
  "find_record book n = None \<Longrightarrow>
   change_contact [n, old, new] book = (lit ''Contact not found.'', book)"
  by (simp add: change_contact_def input_error_def change_contact_func_def none_has_no_def)

lemma lit_not_found_nonempty: "lit ''Phone '' @ old @ lit '' not found'' \<noteq> []"
  by (simp add: lit_def)

lemma change_contact_no_phone:
  assumes "find_record book n = Some r" and "old \<notin> set (phones r)"
  shows "fst (change_contact [n, old, new] book) = lit ''Phone '' @ old @ lit '' not found''"
  using assms lit_not_found_nonempty [of old]
  by (simp add: change_contact_def input_error_def change_contact_func_def edit_phone_absent)

lemma change_contact_invalid:
  assumes "find_record book n = Some r" and "old \<in> set (phones r)" and "Phone new = Inl e"
  shows "fst (change_contact [n, old, new] book) = lit ''Phone must contain exactly 10 digits''"
  using assms Phone_Inl [OF assms(3)] lit_Phone_msg_nonempty
  by (simp add: change_contact_def input_error_def change_contact_func_def edit_phone_invalid)

lemma change_contact_updated:
  assumes "find_record book n = Some r" and "old \<in> set (phones r)" and "Phone new = Inr v"
  shows "fst (change_contact [n, old, new] book) = lit ''Phone updated.''"
proof -
  from assms(2) obtain pre post where s: "phones r = pre @ old # post" "old \<notin> set pre"
    by (auto dest: split_list_first)
  from s assms(3) have "edit_phone r old new = (Inr (), r\<lparr>phones := pre @ new # post\<rparr>)"
    by (rule edit_phone_replaces)
  with assms(1) show ?thesis
    by (simp add: change_contact_def input_error_def change_contact_func_def)
qed

text \<open>
  C5. Called with three arguments, \<^verbatim>\<open>change\<close> returns "Contact not found." and
  leaves the book as it is when the book has no record of the name. When it has one,
  it returns "Phone \<open>old\<close> not found" if no stored phone equals \<open>old\<close>, "Phone updated."
  if one does and the new phone is valid, and the message of the validation error if
  one does and the new phone is invalid. The handler returns one of these four strings
  in every case: no exception leaves it.
\<close>

theorem change_contact_spec:
  "(find_record book n = None \<longrightarrow>
      change_contact [n, old, new] book = (lit ''Contact not found.'', book))
   \<and> (\<forall>r. find_record book n = Some r \<longrightarrow>
        (old \<notin> set (phones r) \<longrightarrow>
           fst (change_contact [n, old, new] book) = lit ''Phone '' @ old @ lit '' not found'')
      \<and> (old \<in> set (phones r) \<and> (\<exists>v. Phone new = Inr v) \<longrightarrow>
           fst (change_contact [n, old, new] book) = lit ''Phone updated.'')
      \<and> (old \<in> set (phones r) \<and> (\<exists>e. Phone new = Inl e) \<longrightarrow>
           fst (change_contact [n, old, new] book) = lit ''Phone must contain exactly 10 digits''))
   \<and> fst (change_contact [n, old, new] book)
       \<in> {lit ''Contact not found.'', lit ''Phone '' @ old @ lit '' not found'',
           lit ''Phone updated.'', lit ''Phone must contain exactly 10 digits''}"
proof -
  have a: "find_record book n = None \<longrightarrow>
      change_contact [n, old, new] book = (lit ''Contact not found.'', book)"
    by (simp add: change_contact_unknown)
  have b: "\<forall>r. find_record book n = Some r \<longrightarrow>
        (old \<notin> set (phones r) \<longrightarrow>
           fst (change_contact [n, old, new] book) = lit ''Phone '' @ old @ lit '' not found'')
      \<and> (old \<in> set (phones r) \<and> (\<exists>v. Phone new = Inr v) \<longrightarrow>
           fst (change_contact [n, old, new] book) = lit ''Phone updated.'')
      \<and> (old \<in> set (phones r) \<and> (\<exists>e. Phone new = Inl e) \<longrightarrow>
           fst (change_contact [n, old, new] book) = lit ''Phone must contain exactly 10 digits'')"
    by (auto simp: change_contact_no_phone change_contact_updated change_contact_invalid)
  have c: "fst (change_contact [n, old, new] book)
       \<in> {lit ''Contact not found.'', lit ''Phone '' @ old @ lit '' not found'',
           lit ''Phone updated.'', lit ''Phone must contain exactly 10 digits''}"
  proof (cases "find_record book n")
    case None
    then show ?thesis by (simp add: change_contact_unknown)
  next
    case (Some r)
    show ?thesis
    proof (cases "old \<in> set (phones r)")
      case False
      with Some show ?thesis by (simp add: change_contact_no_phone)
    next
      case True
      show ?thesis
      proof (cases "Phone new")
        case (Inl e)
        with Some True show ?thesis by (simp add: change_contact_invalid)
      next
        case (Inr v)
        with Some True show ?thesis by (simp add: change_contact_updated)
      qed
    qed
  qed
  show ?thesis using a b c by (intro conjI)
qed

theorem change_contact_spec_witness:
  "change_contact [lit ''bob'', lit ''123'', lit ''456''] [] = (lit ''Contact not found.'', [])
   \<and> fst (change_contact [lit ''bob'', lit ''1111111111'', lit ''2222222222'']
        [(lit ''bob'', \<lparr>name = lit ''bob'', phones = [lit ''1111111111''], birthday = None\<rparr>)])
       = lit ''Phone updated.''
   \<and> fst (change_contact [lit ''bob'', lit ''3333333333'', lit ''2222222222'']
        [(lit ''bob'', \<lparr>name = lit ''bob'', phones = [lit ''1111111111''], birthday = None\<rparr>)])
       = lit ''Phone 3333333333 not found''"
  using change_contact_spec [of "[]" "lit ''bob''" "lit ''123''" "lit ''456''"]
    change_contact_spec [of "[(lit ''bob'', \<lparr>name = lit ''bob'', phones = [lit ''1111111111''],
      birthday = None\<rparr>)]" "lit ''bob''" "lit ''1111111111''" "lit ''2222222222''"]
    change_contact_spec [of "[(lit ''bob'', \<lparr>name = lit ''bob'', phones = [lit ''1111111111''],
      birthday = None\<rparr>)]" "lit ''bob''" "lit ''3333333333''" "lit ''2222222222''"]
  by (simp add: find_record_def Phone_def char_defs)

section \<open>Birthdays: what \<^verbatim>\<open>strptime\<close> accepts\<close>

lemma match_seq_Some:
  "match_seq ps s = Some (g, rest) \<Longrightarrow> s = g @ rest \<and> list_all2 (\<lambda>p c. p c) ps g"
  by (induction ps s arbitrary: g rest rule: match_seq.induct)
     (auto split: if_splits option.splits)

lemma match_seq_append:
  "list_all2 (\<lambda>p c. p c) ps g \<Longrightarrow> match_seq ps (g @ rest) = Some (g, rest)"
  by (induction ps arbitrary: g) (auto simp: list_all2_Cons1)

lemma match_seq_iff:
  "match_seq ps s = Some (g, rest) \<longleftrightarrow> s = g @ rest \<and> list_all2 (\<lambda>p c. p c) ps g"
  using match_seq_Some match_seq_append by blast

lemma set_map_filter_iff: "y \<in> set (List.map_filter f xs) \<longleftrightarrow> (\<exists>x \<in> set xs. f x = Some y)"
  by (induction xs) (auto split: option.splits)

lemma set_alternatives:
  "(g, rest) \<in> set (alternatives alts s)
     \<longleftrightarrow> s = g @ rest \<and> (\<exists>ps \<in> set alts. list_all2 (\<lambda>p c. p c) ps g)"
  by (auto simp: alternatives_def set_map_filter_iff match_seq_iff)

lemma set_re_d: "(d, rest) \<in> set (re_d s) \<longleftrightarrow> s = d @ rest \<and> day_text d"
  by (auto simp: re_d_def set_alternatives day_text_def list_all2_Cons1 split: list.splits)

lemma set_re_m: "(m, rest) \<in> set (re_m s) \<longleftrightarrow> s = m @ rest \<and> month_text m"
  by (auto simp: re_m_def set_alternatives month_text_def list_all2_Cons1 split: list.splits)

lemma length_4_iff: "length t = 4 \<longleftrightarrow> (\<exists>a b c d. t = [a, b, c, d])"
  by (auto simp: numeral_eq_Suc length_Suc_conv)

lemma set_re_Y: "(Y, rest) \<in> set (re_Y s) \<longleftrightarrow> s = Y @ rest \<and> year_text Y"
  by (auto simp: re_Y_def set_alternatives year_text_def list_all2_Cons1 length_4_iff)

lemma set_re_dot: "(t, rest) \<in> set (re_dot s) \<longleftrightarrow> s = t @ rest \<and> t = [46]"
  by (auto simp: re_dot_def set_alternatives list_all2_Cons1 chr_is_def)

lemma in_concat_map_pairs:
  "y \<in> set (concat (map (\<lambda>(a, r). f a r) xs)) \<longleftrightarrow> (\<exists>a r. (a, r) \<in> set xs \<and> y \<in> set (f a r))"
  by (induction xs) auto

lemma in_map_pairs:
  "y \<in> set (map (\<lambda>(a, r). g a r) xs) \<longleftrightarrow> (\<exists>a r. (a, r) \<in> set xs \<and> y = g a r)"
  by (induction xs) auto

lemma set_format_regex_matches:
  "((d, m, Y), rest) \<in> set (format_regex_matches s)
     \<longleftrightarrow> s = d @ [46] @ m @ [46] @ Y @ rest \<and> day_text d \<and> month_text m \<and> year_text Y"
  unfolding format_regex_matches_def in_concat_map_pairs in_map_pairs set_re_d set_re_m set_re_Y
    set_re_dot
  by auto


lemma not_decimal_dot: "\<not> isdecimal_char 46"
  by (simp add: isdecimal_char_def decimal_run_def decimal_zeros_def)

lemma day_text_unique:
  "day_text d \<Longrightarrow> day_text d' \<Longrightarrow> d @ 46 # t = d' @ 46 # t' \<Longrightarrow> d = d' \<and> t = t'"
  using not_decimal_dot
  by (auto simp: day_text_def chr_is_def chr_range_def split: list.splits)

lemma month_text_unique:
  "month_text m \<Longrightarrow> month_text m' \<Longrightarrow> m @ 46 # t = m' @ 46 # t' \<Longrightarrow> m = m' \<and> t = t'"
  by (auto simp: month_text_def chr_is_def chr_range_def split: list.splits)

lemma year_text_unique:
  "year_text Y \<Longrightarrow> year_text Y' \<Longrightarrow> Y @ t = Y' @ t' \<Longrightarrow> Y = Y' \<and> t = t'"
  by (simp add: year_text_def)

lemma matches_unique:
  assumes "x \<in> set (format_regex_matches s)" and "y \<in> set (format_regex_matches s)"
  shows "x = y"
proof -
  obtain d m Y r where x: "x = ((d, m, Y), r)" by (metis prod_cases4 prod.collapse)
  obtain d' m' Y' r' where y: "y = ((d', m', Y'), r')" by (metis prod_cases4 prod.collapse)
  from assms(1) x have a: "s = d @ 46 # m @ 46 # Y @ r" "day_text d" "month_text m" "year_text Y"
    by (simp_all add: set_format_regex_matches)
  from assms(2) y have b: "s = d' @ 46 # m' @ 46 # Y' @ r'" "day_text d'" "month_text m'"
      "year_text Y'"
    by (simp_all add: set_format_regex_matches)
  from a(1) b(1) have "d @ 46 # (m @ 46 # Y @ r) = d' @ 46 # (m' @ 46 # Y' @ r')" by simp
  with a(2) b(2) have 1: "d = d'" "m @ 46 # (Y @ r) = m' @ 46 # (Y' @ r')"
    by (auto dest: day_text_unique)
  with a(3) b(3) have 2: "m = m'" "Y @ r = Y' @ r'"
    by (auto dest: month_text_unique)
  with a(4) b(4) have 3: "Y = Y'" "r = r'"
    by (auto dest: year_text_unique)
  show ?thesis using x y 1 2 3 by simp
qed

lemma format_regex_match_iff:
  "format_regex_match s = Some x \<longleftrightarrow> x \<in> set (format_regex_matches s)"
proof (cases "format_regex_matches s")
  case Nil
  then show ?thesis by (simp add: format_regex_match_def)
next
  case (Cons z zs)
  then have "z \<in> set (format_regex_matches s)" by simp
  then have "x \<in> set (format_regex_matches s) \<longleftrightarrow> z = x"
    by (auto dest: matches_unique)
  with Cons show ?thesis by (simp add: format_regex_match_def)
qed

lemma format_regex_match_None:
  "format_regex_match s = None \<longleftrightarrow> set (format_regex_matches s) = {}"
  by (cases "format_regex_matches s") (simp_all add: format_regex_match_def)

lemma strptime_Inr_iff:
  "strptime s = Inr dt \<longleftrightarrow>
     (\<exists>d m Y. s = d @ [46] @ m @ [46] @ Y \<and> day_text d \<and> month_text m \<and> year_text Y
        \<and> new_date (py_int Y) (py_int m) (py_int d) = Inr dt)"
  (is "?L \<longleftrightarrow> ?R")
proof (cases "format_regex_match s")
  case None
  then have n: "\<And>x. x \<notin> set (format_regex_matches s)"
    by (simp add: format_regex_match_None)
  have "\<not> ?R"
  proof
    assume ?R
    then obtain d m Y where "((d, m, Y), []) \<in> set (format_regex_matches s)"
      by (auto simp: set_format_regex_matches)
    with n show False by blast
  qed
  moreover have "\<not> ?L" using None by (simp add: strptime_def)
  ultimately show ?thesis by blast
next
  case (Some x)
  obtain d m Y r where x: "x = ((d, m, Y), r)" by (metis prod_cases4 prod.collapse)
  from Some x have mem: "((d, m, Y), r) \<in> set (format_regex_matches s)"
    by (simp add: format_regex_match_iff)
  have u: "d' = d \<and> m' = m \<and> Y' = Y \<and> r = []"
    if "((d', m', Y'), []) \<in> set (format_regex_matches s)" for d' m' Y'
    using matches_unique [OF that mem] by simp
  show ?thesis
  proof
    assume ?L
    with Some x have "r = []" "new_date (py_int Y) (py_int m) (py_int d) = Inr dt"
      by (auto simp: strptime_def split: if_splits)
    with mem show ?R by (auto simp: set_format_regex_matches)
  next
    assume ?R
    then obtain d' m' Y' where r: "((d', m', Y'), []) \<in> set (format_regex_matches s)"
        "new_date (py_int Y') (py_int m') (py_int d') = Inr dt"
      by (auto simp: set_format_regex_matches)
    from u [OF r(1)] r(2) Some x show ?L by (simp add: strptime_def)
  qed
qed

lemma new_date_Inr_iff:
  "new_date y m d = Inr dt \<longleftrightarrow> valid_ymd y m d \<and> dt = \<lparr>year = y, month = m, day = d\<rparr>"
  by (auto simp: new_date_def valid_ymd_def)

lemma new_date_Inl: "new_date y m d = Inl e \<Longrightarrow> \<exists>msg. e = ValueError msg"
  by (auto simp: new_date_def split: if_splits)

lemma strptime_Inl: "strptime s = Inl e \<Longrightarrow> \<exists>msg. e = ValueError msg"
  by (auto simp: strptime_def split: option.splits if_splits dest: new_date_Inl)

lemma Birthday_cases:
  "Birthday s = (if \<exists>dt. strptime s = Inr dt then Inr s
                 else Inl (ValueError (lit ''Invalid date format. Use DD.MM.YYYY'')))"
proof (cases "strptime s")
  case (Inl e)
  then obtain msg where "e = ValueError msg" by (auto dest: strptime_Inl)
  with Inl show ?thesis by (simp add: Birthday_def)
next
  case (Inr dt)
  then show ?thesis by (simp add: Birthday_def)
qed

lemma decimal_run_ascii: "ascii_digit c \<Longrightarrow> decimal_run c = Some 48"
  by (simp add: ascii_digit_def decimal_run_def decimal_zeros_def)

lemma isdecimal_ascii: "ascii_digit c \<Longrightarrow> isdecimal_char c"
  by (simp add: isdecimal_char_def decimal_run_ascii)

lemma decimal_value_ascii: "ascii_digit c \<Longrightarrow> decimal_value c = c - 48"
  by (simp add: decimal_value_def decimal_run_ascii)

lemma py_int_2:
  "ascii_digit a \<Longrightarrow> ascii_digit b \<Longrightarrow> py_int [a, b] = 10 * int (a - 48) + int (b - 48)"
  by (simp add: py_int_def decimal_value_ascii)

lemma days_in_month_le_31: "1 \<le> m \<Longrightarrow> m \<le> 12 \<Longrightarrow> days_in_month y m \<le> 31"
proof -
  assume "1 \<le> m" "m \<le> 12"
  then have "m = 1 \<or> m = 2 \<or> m = 3 \<or> m = 4 \<or> m = 5 \<or> m = 6 \<or> m = 7 \<or> m = 8 \<or> m = 9
      \<or> m = 10 \<or> m = 11 \<or> m = 12"
    by arith
  then show ?thesis
    by (auto simp: days_in_month_def DAYS_IN_MONTH_def)
qed

lemma day_text_2:
  assumes "ascii_digit a" "ascii_digit b" "1 \<le> py_int [a, b]" "py_int [a, b] \<le> 31"
  shows "day_text [a, b]"
  using assms isdecimal_ascii [OF assms(2)]
  by (simp add: py_int_2 day_text_def chr_is_def chr_range_def) (auto simp: ascii_digit_def)

lemma month_text_2:
  assumes "ascii_digit a" "ascii_digit b" "1 \<le> py_int [a, b]" "py_int [a, b] \<le> 12"
  shows "month_text [a, b]"
  using assms
  by (simp add: py_int_2 month_text_def chr_is_def chr_range_def) (auto simp: ascii_digit_def)

lemma length_10_iff:
  "length t = 10 \<longleftrightarrow> (\<exists>a0 a1 a2 a3 a4 a5 a6 a7 a8 a9. t = [a0, a1, a2, a3, a4, a5, a6, a7, a8, a9])"
  by (auto simp: numeral_eq_Suc length_Suc_conv)

lemma spec_date_accepted:
  assumes "spec_DD_MM_YYYY s"
  shows "Birthday s = Inr s"
proof -
  from assms obtain a0 a1 a2 a3 a4 a5 a6 a7 a8 a9
    where s: "s = [a0, a1, a2, a3, a4, a5, a6, a7, a8, a9]"
    by (auto simp: spec_DD_MM_YYYY_def length_10_iff)
  let ?d = "[a0, a1]" and ?m = "[a3, a4]" and ?Y = "[a6, a7, a8, a9]"
  from assms s have dots: "a2 = 46" "a5 = 46"
    and dig: "ascii_digit a0" "ascii_digit a1" "ascii_digit a3" "ascii_digit a4"
      "ascii_digit a6" "ascii_digit a7" "ascii_digit a8" "ascii_digit a9"
    and v: "valid_ymd (py_int ?Y) (py_int ?m) (py_int ?d)"
    by (simp_all add: spec_DD_MM_YYYY_def)
  from v have m: "1 \<le> py_int ?m" "py_int ?m \<le> 12"
    and d: "1 \<le> py_int ?d" "py_int ?d \<le> days_in_month (py_int ?Y) (py_int ?m)"
    by (simp_all add: valid_ymd_def)
  from d(2) days_in_month_le_31 [OF m, of "py_int ?Y"] have d31: "py_int ?d \<le> 31" by simp
  have dt: "day_text ?d" using dig(1,2) d(1) d31 by (rule day_text_2)
  have mt: "month_text ?m" using dig(3,4) m by (rule month_text_2)
  have yt: "year_text ?Y" using dig(5-8) by (simp add: year_text_def isdecimal_ascii)
  have "s = ?d @ [46] @ ?m @ [46] @ ?Y" using s dots by simp
  with dt mt yt v
  have "strptime s = Inr \<lparr>year = py_int ?Y, month = py_int ?m, day = py_int ?d\<rparr>"
    unfolding strptime_Inr_iff new_date_Inr_iff by blast
  then show ?thesis by (simp add: Birthday_cases)
qed

lemmas re_defs = re_d_def re_m_def re_Y_def re_dot_def alternatives_def
  format_regex_matches_def format_regex_match_def

lemmas date_defs = new_date_def days_in_month_def is_leap_def DAYS_IN_MONTH_def
  DAYS_BEFORE_MONTH_def py_int_def strptime_def Birthday_def

lemma Birthday_leap_day_2020: "Birthday (lit ''29.02.2020'') = Inr (lit ''29.02.2020'')"
  by (simp add: char_defs re_defs date_defs)

lemma Birthday_leap_day_2021:
  "Birthday (lit ''29.02.2021'') = Inl (ValueError (lit ''Invalid date format. Use DD.MM.YYYY''))"
  by (simp add: char_defs re_defs date_defs)

text \<open>
  C2 (as the code has it). \<^verbatim>\<open>Birthday(s)\<close> succeeds, keeping \<open>s\<close>, exactly when \<open>s\<close> is a
  day field, a dot, a month field, a dot and a year field, where the day field is one
  of \<^verbatim>\<open>1\<close> to \<^verbatim>\<open>9\<close>, \<^verbatim>\<open>01\<close> to \<^verbatim>\<open>31\<close> or a blank followed by \<^verbatim>\<open>1\<close> to \<^verbatim>\<open>9\<close>, the
  month field is one of \<^verbatim>\<open>1\<close> to \<^verbatim>\<open>9\<close> or \<^verbatim>\<open>01\<close> to \<^verbatim>\<open>12\<close>, the year field is four
  decimal digits (where the pattern says \<^verbatim>\<open>\d\<close>, in the year and after a leading
  \<^verbatim>\<open>1\<close> or \<^verbatim>\<open>2\<close> of the day, a decimal digit of any script counts), and the three
  numbers are a calendar date of the years 1 to 9999;
  otherwise it raises \<^verbatim>\<open>ValueError\<close> with the message
  "Invalid date format. Use DD.MM.YYYY". Every real calendar date written with two
  digits for the day, two for the month and four for the year is accepted;
  \<^verbatim>\<open>29.02.2020\<close> is accepted and \<^verbatim>\<open>29.02.2021\<close> is rejected.
\<close>

theorem Birthday_succeeds_iff:
  "((\<exists>v. Birthday s = Inr v) \<longleftrightarrow>
      (\<exists>d m Y. s = d @ lit ''.'' @ m @ lit ''.'' @ Y \<and> day_text d \<and> month_text m \<and> year_text Y
         \<and> valid_ymd (py_int Y) (py_int m) (py_int d)))
   \<and> ((\<exists>v. Birthday s = Inr v) \<longrightarrow> Birthday s = Inr s)
   \<and> (\<not> (\<exists>v. Birthday s = Inr v) \<longrightarrow>
        Birthday s = Inl (ValueError (lit ''Invalid date format. Use DD.MM.YYYY'')))
   \<and> (spec_DD_MM_YYYY s \<longrightarrow> Birthday s = Inr s)
   \<and> Birthday (lit ''29.02.2020'') = Inr (lit ''29.02.2020'')
   \<and> Birthday (lit ''29.02.2021'') = Inl (ValueError (lit ''Invalid date format. Use DD.MM.YYYY''))"
proof -
  have dot: "lit ''.'' = [46]" by (simp add: lit_def)
  have a: "(\<exists>v. Birthday s = Inr v) \<longleftrightarrow>
      (\<exists>d m Y. s = d @ lit ''.'' @ m @ lit ''.'' @ Y \<and> day_text d \<and> month_text m \<and> year_text Y
         \<and> valid_ymd (py_int Y) (py_int m) (py_int d))"
    unfolding dot by (simp add: Birthday_cases strptime_Inr_iff new_date_Inr_iff)
  have b: "(\<exists>v. Birthday s = Inr v) \<longrightarrow> Birthday s = Inr s"
    by (simp add: Birthday_cases)
  have c: "\<not> (\<exists>v. Birthday s = Inr v) \<longrightarrow>
        Birthday s = Inl (ValueError (lit ''Invalid date format. Use DD.MM.YYYY''))"
    by (simp add: Birthday_cases)
  have d: "spec_DD_MM_YYYY s \<longrightarrow> Birthday s = Inr s"
    by (simp add: spec_date_accepted)
  show ?thesis
    using a b c d Birthday_leap_day_2020 Birthday_leap_day_2021 by (intro conjI)
qed

theorem Birthday_succeeds_iff_witness:
  "spec_DD_MM_YYYY (lit ''09.06.2020'')
   \<and> Birthday (lit ''09.06.2020'') = Inr (lit ''09.06.2020'')
   \<and> Birthday (lit ''30.02.2020'') = Inl (ValueError (lit ''Invalid date format. Use DD.MM.YYYY''))"
proof -
  have s: "spec_DD_MM_YYYY (lit ''09.06.2020'')"
    by (simp add: spec_DD_MM_YYYY_def valid_ymd_def ascii_digit_def char_defs date_defs)
  have n: "\<not> (\<exists>v. Birthday (lit ''30.02.2020'') = Inr v)"
    by (simp add: char_defs re_defs date_defs)
  have a: "spec_DD_MM_YYYY (lit ''09.06.2020'')
      \<longrightarrow> Birthday (lit ''09.06.2020'') = Inr (lit ''09.06.2020'')"
    using Birthday_succeeds_iff [of "lit ''09.06.2020''"] by (elim conjE)
  have b: "\<not> (\<exists>v. Birthday (lit ''30.02.2020'') = Inr v) \<longrightarrow>
      Birthday (lit ''30.02.2020'') = Inl (ValueError (lit ''Invalid date format. Use DD.MM.YYYY''))"
    using Birthday_succeeds_iff [of "lit ''30.02.2020''"] by (elim conjE)
  show ?thesis
    using s n a b by blast
qed

text \<open>
  C2 as stated fails: \<^verbatim>\<open>1.2.2020\<close> has a day and a month of one digit, so it is not
  written DD.MM.YYYY, and \<^verbatim>\<open>Birthday\<close> accepts it.
\<close>

theorem Birthday_accepts_short_fields:
  "Birthday (lit ''1.2.2020'') = Inr (lit ''1.2.2020'')
   \<and> \<not> spec_DD_MM_YYYY (lit ''1.2.2020'')"
  by (simp add: spec_DD_MM_YYYY_def char_defs re_defs date_defs)

section \<open>Dates: every ordinal in range is a date\<close>

lemma int_1_12:
  "1 \<le> (k::int) \<Longrightarrow> k \<le> 12 \<Longrightarrow>
   k = 1 \<or> k = 2 \<or> k = 3 \<or> k = 4 \<or> k = 5 \<or> k = 6 \<or> k = 7 \<or> k = 8 \<or> k = 9 \<or> k = 10
     \<or> k = 11 \<or> k = 12"
  by arith

lemma month_estimate:
  fixes r :: int
  assumes "0 \<le> r" "r \<le> 364"
  shows "1 \<le> (r + 50) div 32 \<and> (r + 50) div 32 \<le> 12"
  using assms by arith

lemma month_bounds:
  fixes r :: int
  shows "32 * ((r + 50) div 32) \<le> r + 50 \<and> r + 50 < 32 * ((r + 50) div 32) + 32"
  by arith


lemma month_day_valid:
  fixes r :: int and leap :: bool
  assumes "0 \<le> r" "r \<le> 364"
  defines "m \<equiv> (r + 50) div 32"
  defines "p \<equiv> DAYS_BEFORE_MONTH ! nat m + (if m > 2 \<and> leap then 1 else 0)"
  defines "p' \<equiv> p - (DAYS_IN_MONTH ! nat (m - 1) + (if m - 1 = 2 \<and> leap then 1 else 0))"
  shows "if p > r
         then 1 \<le> m - 1 \<and> m - 1 \<le> 12 \<and> 1 \<le> r - p' + 1
              \<and> r - p' + 1 \<le> (if m - 1 = 2 \<and> leap then 29 else DAYS_IN_MONTH ! nat (m - 1))
         else 1 \<le> m \<and> m \<le> 12 \<and> 1 \<le> r - p + 1
              \<and> r - p + 1 \<le> (if m = 2 \<and> leap then 29 else DAYS_IN_MONTH ! nat m)"
proof -
  have "1 \<le> m \<and> m \<le> 12"
    unfolding m_def using assms(1,2) by (rule month_estimate)
  then have k: "m = 1 \<or> m = 2 \<or> m = 3 \<or> m = 4 \<or> m = 5 \<or> m = 6 \<or> m = 7 \<or> m = 8 \<or> m = 9
      \<or> m = 10 \<or> m = 11 \<or> m = 12"
    by (simp add: int_1_12)
  have c: "32 * m \<le> r + 50 \<and> r + 50 < 32 * m + 32"
    unfolding m_def by (rule month_bounds)
  from k show ?thesis
    using c assms(1,2) unfolding p'_def p_def
    by (elim disjE) (simp_all add: DAYS_BEFORE_MONTH_def DAYS_IN_MONTH_def)
qed


lemma mod_zero_small: "0 < x \<Longrightarrow> x \<le> k \<Longrightarrow> (x::int) mod k = 0 \<longleftrightarrow> x = k"
  by (cases "x = k") simp_all

lemma leap_from_cycle:
  fixes a b c e :: int
  assumes "0 \<le> b" "b \<le> 3" "0 \<le> c" "c \<le> 24" "0 \<le> e" "e \<le> 3"
  shows "is_leap (a * 400 + 1 + b * 100 + c * 4 + e) \<longleftrightarrow> e = 3 \<and> (c \<noteq> 24 \<or> b = 3)"
proof -
  define y where "y = a * 400 + 1 + b * 100 + c * 4 + e"
  have "y = 4 * (100 * a + 25 * b + c) + (e + 1)" by (simp add: y_def)
  then have "y mod 4 = (e + 1) mod 4" by (simp only: mod_mult_self4)
  moreover have "(e + 1) mod 4 = 0 \<longleftrightarrow> e + 1 = 4"
    using assms(5,6) by (intro mod_zero_small) simp_all
  ultimately have m4: "y mod 4 = 0 \<longleftrightarrow> e = 3" by simp
  have "y = 100 * (4 * a + b) + (4 * c + (e + 1))" by (simp add: y_def)
  then have "y mod 100 = (4 * c + (e + 1)) mod 100" by (simp only: mod_mult_self4)
  moreover have "(4 * c + 4) mod 100 = 0 \<longleftrightarrow> 4 * c + 4 = 100"
    using assms(3,4) by (intro mod_zero_small) simp_all
  ultimately have m100: "e = 3 \<Longrightarrow> y mod 100 = 0 \<longleftrightarrow> c = 24" by simp
  have "y = 400 * a + (100 * b + 4 * c + (e + 1))" by (simp add: y_def)
  then have "y mod 400 = (100 * b + 4 * c + (e + 1)) mod 400" by (simp only: mod_mult_self4)
  moreover have "(100 * b + 100) mod 400 = 0 \<longleftrightarrow> 100 * b + 100 = 400"
    using assms(1,2) by (intro mod_zero_small) simp_all
  ultimately have m400: "e = 3 \<Longrightarrow> c = 24 \<Longrightarrow> y mod 400 = 0 \<longleftrightarrow> b = 3"
    by (simp add: add.commute)
  show ?thesis
    unfolding is_leap_def y_def [symmetric] using m4 m100 m400 by auto
qed

lemma ord2ymd_valid:
  assumes "1 \<le> n0" "n0 \<le> 3652059"
  shows "\<exists>y m d. ord2ymd n0 = (y, m, d) \<and> valid_ymd y m d"
proof -
  define n where "n = n0 - 1"
  define a where "a = n div 146097"
  define r400 where "r400 = n mod 146097"
  define b where "b = r400 div 36524"
  define r100 where "r100 = r400 mod 36524"
  define c where "c = r100 div 1461"
  define r4 where "r4 = r100 mod 1461"
  define e where "e = r4 div 365"
  define r where "r = r4 mod 365"
  define y where "y = a * 400 + 1 + b * 100 + c * 4 + e"
  define leap where "leap = (e = 3 \<and> (c \<noteq> 24 \<or> b = 3))"
  define m where "m = (r + 50) div 32"
  define p where "p = DAYS_BEFORE_MONTH ! nat m + (if m > 2 \<and> leap then 1 else 0)"
  define p' where "p' = p - (DAYS_IN_MONTH ! nat (m - 1) + (if m - 1 = 2 \<and> leap then 1 else 0))"
  have n: "0 \<le> n" "n \<le> 3652058" using assms by (simp_all add: n_def)
  have eqs: "n = 146097 * a + r400" "r400 = 36524 * b + r100" "r100 = 1461 * c + r4"
      "r4 = 365 * e + r"
    by (simp_all add: a_def r400_def b_def r100_def c_def r4_def e_def r_def)
  have rng: "0 \<le> r400" "r400 < 146097" "0 \<le> r100" "r100 < 36524" "0 \<le> r4" "r4 < 1461"
      "0 \<le> r" "r < 365"
    by (simp_all add: r400_def r100_def r4_def r_def)
  have q: "0 \<le> a" "a \<le> 24" "0 \<le> b" "b \<le> 4" "0 \<le> c" "c \<le> 24" "0 \<le> e" "e \<le> 4"
    using n eqs rng by arith+
  have unfold: "ord2ymd n0 =
      (if e = 4 \<or> b = 4 then (y - 1, 12, 31)
       else if p > r then (y, m - 1, r - p' + 1) else (y, m, r - p + 1))"
    unfolding ord2ymd_def Let_def n_def a_def r400_def b_def r100_def c_def r4_def e_def
      r_def y_def leap_def m_def p_def p'_def
    by (rule refl)
  show ?thesis
  proof (cases "e = 4 \<or> b = 4")
    case True
    have "1 \<le> y - 1" "y - 1 \<le> 9999"
      using True n eqs rng q unfolding y_def by arith+
    then have "valid_ymd (y - 1) 12 31"
      by (simp add: valid_ymd_def days_in_month_def DAYS_IN_MONTH_def)
    with True unfold show ?thesis by simp
  next
    case False
    with q have q3: "e \<le> 3" "b \<le> 3" by arith+
    have yr: "1 \<le> y" "y \<le> 9999"
      using n eqs rng q q3 unfolding y_def by arith+
    have l: "is_leap y \<longleftrightarrow> leap"
      unfolding y_def leap_def using q q3 by (intro leap_from_cycle) simp_all
    have md: "if p > r
         then 1 \<le> m - 1 \<and> m - 1 \<le> 12 \<and> 1 \<le> r - p' + 1
              \<and> r - p' + 1 \<le> (if m - 1 = 2 \<and> leap then 29 else DAYS_IN_MONTH ! nat (m - 1))
         else 1 \<le> m \<and> m \<le> 12 \<and> 1 \<le> r - p + 1
              \<and> r - p + 1 \<le> (if m = 2 \<and> leap then 29 else DAYS_IN_MONTH ! nat m)"
      unfolding p'_def p_def m_def using rng(7,8) by (intro month_day_valid) simp_all
    show ?thesis
    proof (cases "p > r")
      case True
      with md yr l have "valid_ymd y (m - 1) (r - p' + 1)"
        by (simp add: valid_ymd_def days_in_month_def)
      with True False unfold show ?thesis by simp
    next
      case False
      with md yr l have "valid_ymd y m (r - p + 1)"
        by (simp add: valid_ymd_def days_in_month_def)
      with False \<open>\<not> (e = 4 \<or> b = 4)\<close> unfold show ?thesis by simp
    qed
  qed
qed

lemma div_100_step: "(x::int) \<le> x' \<Longrightarrow> x' div 100 \<le> x div 100 + (x' - x)"
  by arith

lemma days_before_year_mono:
  assumes "y \<le> y'"
  shows "days_before_year y \<le> days_before_year y'"
proof -
  define x x' where "x = y - 1" and "x' = y' - 1"
  define q4 q4' q100 q100' q400 q400'
    where "q4 = x div 4" and "q4' = x' div 4" and "q100 = x div 100" and "q100' = x' div 100"
      and "q400 = x div 400" and "q400' = x' div 400"
  have le: "x \<le> x'" using assms by (simp add: x_def x'_def)
  have a: "q4 \<le> q4'" unfolding q4_def q4'_def using le by (intro zdiv_mono1) simp_all
  have b: "q400 \<le> q400'" unfolding q400_def q400'_def using le by (intro zdiv_mono1) simp_all
  have c: "q100' \<le> q100 + (x' - x)" unfolding q100_def q100'_def using le by (rule div_100_step)
  have "x * 365 + q4 - q100 + q400 \<le> x' * 365 + q4' - q100' + q400'"
    using le a b c by linarith
  then show ?thesis
    by (simp add: days_before_year_def Let_def x_def x'_def q4_def q4'_def q100_def q100'_def
          q400_def q400'_def)
qed

lemma day_of_year_bounds:
  assumes "valid_ymd y m d"
  shows "1 \<le> days_before_month y m + d
     \<and> days_before_month y m + d \<le> (if is_leap y then 366 else 365)"
proof -
  from assms have "1 \<le> m" "m \<le> 12" by (simp_all add: valid_ymd_def)
  then have "m = 1 \<or> m = 2 \<or> m = 3 \<or> m = 4 \<or> m = 5 \<or> m = 6 \<or> m = 7 \<or> m = 8 \<or> m = 9
      \<or> m = 10 \<or> m = 11 \<or> m = 12"
    by (rule int_1_12)
  then show ?thesis
    using assms
    by (elim disjE)
       (auto simp: valid_ymd_def days_before_month_def days_in_month_def DAYS_BEFORE_MONTH_def
          DAYS_IN_MONTH_def split: if_splits)
qed

lemma not_leap_9999: "\<not> is_leap 9999"
  by (simp add: is_leap_def)

lemma toordinal_bounds:
  assumes "valid_date d"
  shows "1 \<le> toordinal d \<and> toordinal d \<le> MAXORDINAL"
proof -
  let ?y = "year d"
  from assms have v: "valid_ymd ?y (month d) (day d)" by (simp add: valid_date_def)
  then have y: "1 \<le> ?y" "?y \<le> 9999" by (simp_all add: valid_ymd_def)
  note b = day_of_year_bounds [OF v]
  have lo: "days_before_year 1 \<le> days_before_year ?y"
    using y(1) by (rule days_before_year_mono)
  have hi: "days_before_year ?y + (if is_leap ?y then 366 else 365) \<le> 3652059"
  proof (cases "?y = 9999")
    case True
    then show ?thesis using not_leap_9999 by (simp add: days_before_year_def)
  next
    case False
    with y(2) have "?y \<le> 9998" by simp
    then have "days_before_year ?y \<le> days_before_year 9998" by (rule days_before_year_mono)
    then show ?thesis by (simp add: days_before_year_def)
  qed
  from lo have "0 \<le> days_before_year ?y" by (simp add: days_before_year_def)
  with b hi show ?thesis
    by (simp add: toordinal_def ymd2ord_def MAXORDINAL_def)
qed

lemma fromordinal_total:
  assumes "1 \<le> n" "n \<le> MAXORDINAL"
  shows "\<exists>d. fromordinal n = Inr d \<and> valid_date d"
proof -
  from assms obtain y m d where "ord2ymd n = (y, m, d)" "valid_ymd y m d"
    using ord2ymd_valid [of n] by (auto simp: MAXORDINAL_def)
  then show ?thesis
    by (simp add: fromordinal_def new_date_Inr_iff valid_date_def)
qed

lemma fromordinal_plus_days:
  assumes "1 \<le> toordinal d + k" "toordinal d + k \<le> MAXORDINAL"
  shows "date_add_days d k = Inr (plus_days d k)"
proof -
  from assms obtain y m d' where o: "ord2ymd (toordinal d + k) = (y, m, d')" "valid_ymd y m d'"
    using ord2ymd_valid [of "toordinal d + k"] by (auto simp: MAXORDINAL_def)
  then have "fromordinal (toordinal d + k) = Inr \<lparr>year = y, month = m, day = d'\<rparr>"
    by (simp add: fromordinal_def new_date_Inr_iff)
  with assms o show ?thesis
    by (simp add: date_add_days_def plus_days_def Let_def)
qed

lemma adjust_for_weekend_shifted:
  assumes "valid_date d"
  shows "adjust_for_weekend d = Inr (shifted d)"
proof -
  from assms have b: "1 \<le> toordinal d" "toordinal d \<le> 3652059"
    using toordinal_bounds [of d] by (simp_all add: MAXORDINAL_def)
  have sat: "toordinal d + 2 \<le> 3652059" if "weekday d = 5"
    using that b unfolding weekday_def by arith
  have sun: "toordinal d + 1 \<le> 3652059" if "weekday d = 6"
    using that b unfolding weekday_def by arith
  show ?thesis
    using b sat sun
    by (simp add: adjust_for_weekend_def shifted_def fromordinal_plus_days MAXORDINAL_def)
qed

section \<open>The upcoming birthdays\<close>

lemma in_year_fields [simp]:
  "year (in_year d y) = y" "month (in_year d y) = month d" "day (in_year d y) = day d"
  "in_year (in_year d y) y' = in_year d y'"
  by (simp_all add: in_year_def)

lemma replace_year_cases:
  assumes "valid_date bday" and "1 \<le> y" and "y \<le> 9999"
  shows "replace_year bday y =
     (if exists_in_year bday y then Inr (in_year bday y)
      else Inl (ValueError (lit ''day is out of range for month'')))"
  using assms
  by (auto simp: replace_year_def new_date_def valid_date_def valid_ymd_def exists_in_year_def
        in_year_def)

lemma valid_in_year:
  "valid_date bday \<Longrightarrow> 1 \<le> y \<Longrightarrow> y \<le> 9999 \<Longrightarrow> exists_in_year bday y \<Longrightarrow> valid_date (in_year bday y)"
  by (simp add: valid_date_def valid_ymd_def exists_in_year_def)

lemma validated_birthday_date:
  assumes "Birthday b = Inr b"
  shows "\<exists>d. date_obj b = Inr d \<and> valid_date d"
proof -
  from assms obtain dt where "strptime b = Inr dt"
    by (auto simp: Birthday_cases split: if_splits)
  moreover from this have "valid_date dt"
    by (auto simp: strptime_Inr_iff new_date_Inr_iff valid_date_def)
  ultimately show ?thesis by (simp add: date_obj_def)
qed

lemma upcoming_entry_dated:
  assumes b: "birthday r = Some b" "date_obj b = Inr bday" "valid_date bday"
    and t: "valid_date today" "year today < 9999"
  shows "upcoming_entry today days r =
     (if occurrence_exists today bday then Inr (spec_entry today days r)
      else Inl (ValueError (lit ''day is out of range for month'')))"
proof -
  let ?y = "year today"
  from t have y: "1 \<le> ?y" "?y \<le> 9999" "1 \<le> ?y + 1" "?y + 1 \<le> 9999"
    by (simp_all add: valid_date_def valid_ymd_def)
  note r1 = replace_year_cases [OF b(3) y(1,2)]
  have bd: "birthday_date r = Some bday" using b(1,2) by (simp add: birthday_date_def)
  show ?thesis
  proof (cases "exists_in_year bday ?y")
    case False
    then show ?thesis
      using b(1,2) r1 by (simp add: upcoming_entry_def occurrence_exists_def)
  next
    case e1: True
    then have v1: "valid_date (in_year bday ?y)"
      using b(3) y(1,2) by (intro valid_in_year)
    note r2 = replace_year_cases [OF v1 y(3,4)]
    show ?thesis
    proof (cases "date_less (in_year bday ?y) today")
      case l: True
      show ?thesis
      proof (cases "exists_in_year bday (?y + 1)")
        case False
        then have "\<not> exists_in_year (in_year bday ?y) (?y + 1)"
          by (simp add: exists_in_year_def)
        then show ?thesis
          using b(1,2) r1 r2 e1 l False by (simp add: upcoming_entry_def occurrence_exists_def)
      next
        case e2: True
        then have e2': "exists_in_year (in_year bday ?y) (?y + 1)"
          by (simp add: exists_in_year_def)
        have v2: "valid_date (in_year bday (?y + 1))"
          using b(3) y(3,4) e2 by (intro valid_in_year)
        have o: "occurrence today bday = in_year bday (?y + 1)"
          using l by (simp add: occurrence_def)
        show ?thesis
          using b(1,2) r1 r2 e1 l e2 e2' o bd adjust_for_weekend_shifted [OF v2]
          by (simp add: upcoming_entry_def occurrence_exists_def spec_entry_def)
      qed
    next
      case l: False
      have o: "occurrence today bday = in_year bday ?y"
        using l by (simp add: occurrence_def)
      show ?thesis
        using b(1,2) r1 e1 l o bd adjust_for_weekend_shifted [OF v1]
        by (simp add: upcoming_entry_def occurrence_exists_def spec_entry_def)
    qed
  qed
qed

lemma upcoming_entry_spec:
  assumes "case birthday r of None \<Rightarrow> True | Some b \<Rightarrow> Birthday b = Inr b"
    and "valid_date today" and "year today < 9999"
  shows "upcoming_entry today days r =
     (if (case birthday_date r of None \<Rightarrow> True | Some d \<Rightarrow> occurrence_exists today d)
      then Inr (spec_entry today days r)
      else Inl (ValueError (lit ''day is out of range for month'')))"
proof (cases "birthday r")
  case None
  then show ?thesis
    by (simp add: upcoming_entry_def birthday_date_def spec_entry_def)
next
  case (Some b)
  with assms(1) have "Birthday b = Inr b" by simp
  then obtain bday where d: "date_obj b = Inr bday" "valid_date bday"
    using validated_birthday_date by blast
  then have "birthday_date r = Some bday" using Some by (simp add: birthday_date_def)
  then show ?thesis
    using upcoming_entry_dated [OF Some d assms(2,3)] by simp
qed

lemma upcoming_loop_spec:
  assumes "list_all (\<lambda>r. case birthday r of None \<Rightarrow> True | Some b \<Rightarrow> Birthday b = Inr b) rs"
    and "valid_date today" and "year today < 9999"
  shows "upcoming_loop today days rs acc =
     (if list_all (\<lambda>r. case birthday_date r of None \<Rightarrow> True | Some d \<Rightarrow> occurrence_exists today d) rs
      then Inr (acc @ List.map_filter (spec_entry today days) rs)
      else Inl (ValueError (lit ''day is out of range for month'')))"
  using assms(1)
proof (induction rs arbitrary: acc)
  case Nil
  then show ?case by simp
next
  case (Cons r rs)
  then have "case birthday r of None \<Rightarrow> True | Some b \<Rightarrow> Birthday b = Inr b" by simp
  note e = upcoming_entry_spec [OF this assms(2,3)]
  from Cons have "\<And>acc. upcoming_loop today days rs acc =
     (if list_all (\<lambda>r. case birthday_date r of None \<Rightarrow> True | Some d \<Rightarrow> occurrence_exists today d) rs
      then Inr (acc @ List.map_filter (spec_entry today days) rs)
      else Inl (ValueError (lit ''day is out of range for month'')))"
    by simp
  then show ?case
    by (simp add: e split: option.splits)
qed

lemma get_upcoming_birthdays_spec:
  assumes "birthdays_validated book" and "valid_date today" and "year today < 9999"
  shows "get_upcoming_birthdays book days today =
     (if all_occurrences_exist book today then Inr (spec_upcoming book days today)
      else Inl (ValueError (lit ''day is out of range for month'')))"
  using assms(1) upcoming_loop_spec [OF _ assms(2,3), of "dict_values book" days "[]"]
  by (simp add: get_upcoming_birthdays_def birthdays_validated_def all_occurrences_exist_def
        spec_upcoming_def)

lemma input_error_book: "snd (input_error func args book) = snd (func args book)"
  by (cases "func args book" rule: prod.exhaust)
     (auto simp: input_error_def split: sum.splits error.splits)

lemma validated_dict_set:
  "birthdays_validated d \<Longrightarrow> (case birthday r of None \<Rightarrow> True | Some b \<Rightarrow> Birthday b = Inr b)
     \<Longrightarrow> birthdays_validated (dict_set d k r)"
  by (induction d k r rule: dict_set.induct) (auto simp: birthdays_validated_def dict_values_def)

lemma validated_mutated:
  "birthdays_validated d \<Longrightarrow> (case birthday r of None \<Rightarrow> True | Some b \<Rightarrow> Birthday b = Inr b)
     \<Longrightarrow> birthdays_validated (mutated d k r)"
  by (induction d) (auto simp: birthdays_validated_def dict_values_def mutated_def)

lemma validated_find:
  "birthdays_validated d \<Longrightarrow> find_record d k = Some r
     \<Longrightarrow> (case birthday r of None \<Rightarrow> True | Some b \<Rightarrow> Birthday b = Inr b)"
  by (auto simp: birthdays_validated_def dict_values_def find_record_def list_all_iff
        dest!: dict_get_Some)

lemma add_phone_birthday: "birthday (snd (add_phone r p)) = birthday r"
  by (simp add: add_phone_def split: sum.splits)

lemma edit_phone_birthday: "birthday (snd (edit_phone r old new)) = birthday r"
  by (simp add: edit_phone_def split: sum.splits option.splits)

lemma add_birthday_validated:
  "(case birthday r of None \<Rightarrow> True | Some b \<Rightarrow> Birthday b = Inr b) \<Longrightarrow>
   (case birthday (snd (add_birthday r b')) of None \<Rightarrow> True | Some b \<Rightarrow> Birthday b = Inr b)"
  by (auto simp: add_birthday_def Birthday_cases split: sum.splits if_splits)

lemma Record_birthday: "Record n = Inr r \<Longrightarrow> birthday r = None"
  by (auto simp: Record_def split: sum.splits)

lemma validated_add_contact:
  assumes "birthdays_validated book"
  shows "birthdays_validated (snd (add_contact_func args book))"
proof -
  have m: "birthdays_validated (mutated b n (snd (add_phone r p)))"
    if "birthdays_validated b" "case birthday r of None \<Rightarrow> True | Some b \<Rightarrow> Birthday b = Inr b"
    for b n r p
    using that by (intro validated_mutated) (simp_all add: add_phone_birthday)
  show ?thesis
  proof (cases args rule: list.exhaust)
    case Nil
    then show ?thesis using assms by (simp add: add_contact_func_def)
  next
    case (Cons n rest)
    show ?thesis
    proof (cases rest)
      case Nil
      with Cons show ?thesis using assms by (simp add: add_contact_func_def)
    next
      case (Cons p rest')
      show ?thesis
      proof (cases rest')
        case (Cons x xs)
        with \<open>args = n # rest\<close> \<open>rest = p # rest'\<close> show ?thesis
          using assms by (simp add: add_contact_func_def)
      next
        case Nil
        then have a: "args = [n, p]" using \<open>args = n # rest\<close> \<open>rest = p # rest'\<close> by simp
        show ?thesis
        proof (cases "find_record book n")
          case (Some r)
          then have "case birthday r of None \<Rightarrow> True | Some b \<Rightarrow> Birthday b = Inr b"
            using assms validated_find by blast
          from m [OF assms this, of n p] Some a show ?thesis
            by (cases "add_phone r p" rule: prod.exhaust)
               (auto simp: add_contact_func_def split: sum.splits)
        next
          case None
          show ?thesis
          proof (cases "Record n")
            case (Inl e)
            with None a assms show ?thesis by (simp add: add_contact_func_def)
          next
            case (Inr r)
            then have b: "birthday r = None" by (rule Record_birthday)
            then have "birthdays_validated (add_record book r)"
              using assms by (simp add: add_record_def validated_dict_set)
            from m [OF this, of r n p] b None Inr a show ?thesis
              by (cases "add_phone r p" rule: prod.exhaust)
                 (auto simp: add_contact_func_def split: sum.splits)
          qed
        qed
      qed
    qed
  qed
qed


lemma validated_change_contact:
  assumes "birthdays_validated book"
  shows "birthdays_validated (snd (change_contact_func args book))"
proof -
  have m: "birthdays_validated (mutated book n r')"
    if "find_record book n = Some r" "edit_phone r old new = (x, r')" for n r r' old new x
  proof -
    from that(2) have "birthday r' = birthday r"
      using edit_phone_birthday [of r old new] by simp
    with validated_find [OF assms that(1)] show ?thesis
      using assms by (intro validated_mutated) simp_all
  qed
  show ?thesis
    using assms
    by (auto simp: change_contact_func_def m split: list.splits option.splits prod.splits
          sum.splits)
qed

lemma validated_add_birthday:
  assumes "birthdays_validated book"
  shows "birthdays_validated (snd (add_birthday_func args book))"
proof -
  have m: "birthdays_validated (mutated book n r')"
    if "find_record book n = Some r" "add_birthday r b = (x, r')" for n r r' b x
  proof -
    from that(2) have "case birthday r' of None \<Rightarrow> True | Some b \<Rightarrow> Birthday b = Inr b"
      using add_birthday_validated [OF validated_find [OF assms that(1)], of b] by simp
    then show ?thesis
      using assms by (intro validated_mutated) simp_all
  qed
  show ?thesis
    using assms
    by (auto simp: add_birthday_func_def m split: list.splits option.splits prod.splits
          sum.splits)
qed

lemma validated_execute: "birthdays_validated book \<Longrightarrow> birthdays_validated (execute book c)"
  by (cases c)
     (simp_all add: add_contact_def change_contact_def add_birthday_handler_def birthdays_def
        input_error_book validated_add_contact validated_change_contact validated_add_birthday
        birthdays_func_def split: sum.splits)

lemma validated_foldl:
  "birthdays_validated book \<Longrightarrow> birthdays_validated (foldl execute book cmds)"
  by (induction cmds arbitrary: book) (simp_all add: validated_execute)

lemma validated_run_commands: "birthdays_validated (run_commands cmds)"
  unfolding run_commands_def
  by (rule validated_foldl) (simp add: birthdays_validated_def dict_values_def)

lemma leap_day_no_occurrence:
  assumes "\<not> is_leap (year today)" and "leap_day_birthday r"
  shows "\<not> (case birthday_date r of None \<Rightarrow> True | Some d \<Rightarrow> occurrence_exists today d)"
  using assms
  by (auto simp: leap_day_birthday_def occurrence_exists_def exists_in_year_def
        days_in_month_def DAYS_IN_MONTH_def split: option.splits)

lemma leap_day_breaks_query:
  assumes "birthdays_validated book" and "valid_date today" and "year today < 9999"
    and "\<not> is_leap (year today)" and "list_ex leap_day_birthday (dict_values book)"
  shows "get_upcoming_birthdays book days today
     = Inl (ValueError (lit ''day is out of range for month''))"
proof -
  from assms(5) obtain r where "r \<in> set (dict_values book)" "leap_day_birthday r"
    by (auto simp: list_ex_iff)
  with leap_day_no_occurrence [OF assms(4)] have "\<not> all_occurrences_exist book today"
    by (auto simp: all_occurrences_exist_def list_all_iff)
  then show ?thesis
    by (simp add: get_upcoming_birthdays_spec [OF assms(1-3)])
qed

lemma lit_day_out_of_range_nonempty: "lit ''day is out of range for month'' \<noteq> []"
  by (simp add: lit_def)

section \<open>A birthday on 29 February\<close>

lemmas ord_defs = toordinal_def ymd2ord_def days_before_year_def days_before_month_def
  fromordinal_def ord2ymd_def date_add_days_def MAXORDINAL_def weekday_def days_between_def
  date_less_def replace_year_def adjust_for_weekend_def strftime_def pad2_def str_nat.simps

lemmas handler_defs = add_contact_def add_contact_func_def add_birthday_handler_def
  add_birthday_func_def input_error_def find_record_def add_record_def Record_def Name_def
  add_phone_def add_birthday_def mutated_def Phone_def

lemma strptime_alice: "strptime (lit ''29.02.2020'') = Inr \<lparr>year = 2020, month = 2, day = 29\<rparr>"
  by (simp add: char_defs re_defs date_defs)

lemma strptime_bob: "strptime (lit ''27.02.1990'') = Inr \<lparr>year = 1990, month = 2, day = 27\<rparr>"
  by (simp add: char_defs re_defs date_defs)

lemma Birthday_bob: "Birthday (lit ''27.02.1990'') = Inr (lit ''27.02.1990'')"
  by (simp add: Birthday_def strptime_bob)

lemma entry_bob:
  "upcoming_entry \<lparr>year = 2023, month = 2, day = 25\<rparr> 7
     \<lparr>name = lit ''bob'', phones = [lit ''0987654321''], birthday = Some (lit ''27.02.1990'')\<rparr>
   = Inr (Some (lit ''bob'', lit ''27.02.2023''))"
  by (simp add: upcoming_entry_def date_obj_def strptime_bob ord_defs new_date_def
        days_in_month_def is_leap_def DAYS_IN_MONTH_def DAYS_BEFORE_MONTH_def; simp add: lit_def)

lemma entry_alice:
  "upcoming_entry \<lparr>year = 2023, month = 2, day = 25\<rparr> 7
     \<lparr>name = lit ''alice'', phones = [lit ''1234567890''], birthday = Some (lit ''29.02.2020'')\<rparr>
   = Inl (ValueError (lit ''day is out of range for month''))"
  by (simp add: upcoming_entry_def date_obj_def strptime_alice ord_defs new_date_def
        days_in_month_def is_leap_def DAYS_IN_MONTH_def DAYS_BEFORE_MONTH_def)

lemma commands_reach_book:
  "run_commands
     [Add [lit ''bob'', lit ''0987654321''], AddBirthday [lit ''bob'', lit ''27.02.1990''],
      Add [lit ''alice'', lit ''1234567890''], AddBirthday [lit ''alice'', lit ''29.02.2020'']]
   = [(lit ''bob'', \<lparr>name = lit ''bob'', phones = [lit ''0987654321''],
          birthday = Some (lit ''27.02.1990'')\<rparr>),
      (lit ''alice'', \<lparr>name = lit ''alice'', phones = [lit ''1234567890''],
          birthday = Some (lit ''29.02.2020'')\<rparr>)]"
proof -
  have n: "lit ''bob'' \<noteq> []" "lit ''alice'' \<noteq> []" "lit ''alice'' \<noteq> lit ''bob''"
    by (simp_all add: lit_def)
  have p: "Phone (lit ''0987654321'') = Inr (lit ''0987654321'')"
      "Phone (lit ''1234567890'') = Inr (lit ''1234567890'')"
    by (simp_all add: Phone_def char_defs)
  show ?thesis
    using n
    by (simp add: run_commands_def add_contact_def add_contact_func_def
          add_birthday_handler_def add_birthday_func_def input_error_def find_record_def
          add_record_def Record_def Name_def add_phone_def add_birthday_def mutated_def p
          Birthday_bob Birthday_leap_day_2020)
qed


lemma query_bob_alice:
  "get_upcoming_birthdays
     [(lit ''bob'', \<lparr>name = lit ''bob'', phones = [lit ''0987654321''],
          birthday = Some (lit ''27.02.1990'')\<rparr>),
      (lit ''alice'', \<lparr>name = lit ''alice'', phones = [lit ''1234567890''],
          birthday = Some (lit ''29.02.2020'')\<rparr>)]
     7 \<lparr>year = 2023, month = 2, day = 25\<rparr>
   = Inl (ValueError (lit ''day is out of range for month''))"
  by (simp add: get_upcoming_birthdays_def dict_values_def entry_bob entry_alice)

lemma query_bob:
  "get_upcoming_birthdays
     [(lit ''bob'', \<lparr>name = lit ''bob'', phones = [lit ''0987654321''],
          birthday = Some (lit ''27.02.1990'')\<rparr>)]
     7 \<lparr>year = 2023, month = 2, day = 25\<rparr>
   = Inr [(lit ''bob'', lit ''27.02.2023'')]"
  by (simp add: get_upcoming_birthdays_def dict_values_def entry_bob)

text \<open>
  C1, at the input where the code leaves it. The book holds bob, born on 27 February,
  and alice, born on 29 February 2020; today is Saturday 25 February 2023. Bob's
  birthday is two days ahead, and with bob alone the query returns his entry; with
  alice in the book the replacement of the year raises \<^verbatim>\<open>ValueError\<close> and the query
  returns no list at all.
\<close>

theorem upcoming_birthdays_leap_day_failure:
  "get_upcoming_birthdays
     [(lit ''bob'', \<lparr>name = lit ''bob'', phones = [lit ''0987654321''],
          birthday = Some (lit ''27.02.1990'')\<rparr>),
      (lit ''alice'', \<lparr>name = lit ''alice'', phones = [lit ''1234567890''],
          birthday = Some (lit ''29.02.2020'')\<rparr>)]
     7 \<lparr>year = 2023, month = 2, day = 25\<rparr>
     = Inl (ValueError (lit ''day is out of range for month''))
   \<and> get_upcoming_birthdays
     [(lit ''bob'', \<lparr>name = lit ''bob'', phones = [lit ''0987654321''],
          birthday = Some (lit ''27.02.1990'')\<rparr>)]
     7 \<lparr>year = 2023, month = 2, day = 25\<rparr>
     = Inr [(lit ''bob'', lit ''27.02.2023'')]"
  using query_bob_alice query_bob by (rule conjI)

theorem upcoming_birthdays_leap_day_failure_witness:
  "\<not> (\<exists>upcoming. get_upcoming_birthdays
     [(lit ''bob'', \<lparr>name = lit ''bob'', phones = [lit ''0987654321''],
          birthday = Some (lit ''27.02.1990'')\<rparr>),
      (lit ''alice'', \<lparr>name = lit ''alice'', phones = [lit ''1234567890''],
          birthday = Some (lit ''29.02.2020'')\<rparr>)]
     7 \<lparr>year = 2023, month = 2, day = 25\<rparr> = Inr upcoming)"
  using upcoming_birthdays_leap_day_failure by simp

text \<open>
  C10. Take any book that the commands reach from the empty book and that holds a
  record whose birthday is a 29 February, and any day of a year before 9999 that is
  not a leap year. Then \<^verbatim>\<open>get_upcoming_birthdays\<close> raises \<^verbatim>\<open>ValueError\<close> with the
  message "day is out of range for month" where it replaces the year, and the handler
  \<^verbatim>\<open>birthdays\<close> returns that text and nothing else, whichever other birthdays the book
  holds; the book is as before.
\<close>

theorem leap_day_birthday_breaks_birthdays:
  assumes "list_ex leap_day_birthday (dict_values (run_commands cmds))"
    and "valid_date today" and "year today < 9999" and "\<not> is_leap (year today)"
  shows "get_upcoming_birthdays (run_commands cmds) 7 today
       = Inl (ValueError (lit ''day is out of range for month''))
     \<and> birthdays today args (run_commands cmds)
       = (lit ''day is out of range for month'', run_commands cmds)"
proof -
  have q: "get_upcoming_birthdays (run_commands cmds) 7 today
      = Inl (ValueError (lit ''day is out of range for month''))"
    using validated_run_commands assms(2,3,4,1) by (rule leap_day_breaks_query)
  then have "birthdays today args (run_commands cmds)
      = (lit ''day is out of range for month'', run_commands cmds)"
    using lit_day_out_of_range_nonempty
    by (simp add: birthdays_def birthdays_func_def input_error_def)
  with q show ?thesis by (rule conjI)
qed

theorem leap_day_birthday_breaks_birthdays_witness:
  "run_commands
     [Add [lit ''bob'', lit ''0987654321''], AddBirthday [lit ''bob'', lit ''27.02.1990''],
      Add [lit ''alice'', lit ''1234567890''], AddBirthday [lit ''alice'', lit ''29.02.2020'']]
     = [(lit ''bob'', \<lparr>name = lit ''bob'', phones = [lit ''0987654321''],
          birthday = Some (lit ''27.02.1990'')\<rparr>),
        (lit ''alice'', \<lparr>name = lit ''alice'', phones = [lit ''1234567890''],
          birthday = Some (lit ''29.02.2020'')\<rparr>)]
   \<and> birthdays \<lparr>year = 2023, month = 2, day = 25\<rparr> []
       [(lit ''bob'', \<lparr>name = lit ''bob'', phones = [lit ''0987654321''],
          birthday = Some (lit ''27.02.1990'')\<rparr>),
        (lit ''alice'', \<lparr>name = lit ''alice'', phones = [lit ''1234567890''],
          birthday = Some (lit ''29.02.2020'')\<rparr>)]
     = (lit ''day is out of range for month'',
        [(lit ''bob'', \<lparr>name = lit ''bob'', phones = [lit ''0987654321''],
          birthday = Some (lit ''27.02.1990'')\<rparr>),
        (lit ''alice'', \<lparr>name = lit ''alice'', phones = [lit ''1234567890''],
          birthday = Some (lit ''29.02.2020'')\<rparr>)])
   \<and> fst (birthdays \<lparr>year = 2023, month = 2, day = 25\<rparr> []
       [(lit ''bob'', \<lparr>name = lit ''bob'', phones = [lit ''0987654321''],
          birthday = Some (lit ''27.02.1990'')\<rparr>)])
     = lit ''bob: 27.02.2023''"
proof -
  let ?cmds = "[Add [lit ''bob'', lit ''0987654321''], AddBirthday [lit ''bob'', lit ''27.02.1990''],
      Add [lit ''alice'', lit ''1234567890''], AddBirthday [lit ''alice'', lit ''29.02.2020'']]"
  let ?today = "\<lparr>year = 2023, month = 2, day = 25\<rparr>"
  have l: "list_ex leap_day_birthday (dict_values (run_commands ?cmds))"
    by (simp add: commands_reach_book dict_values_def leap_day_birthday_def birthday_date_def
          date_obj_def strptime_alice)
  have v: "valid_date ?today"
    by (simp add: valid_date_def valid_ymd_def days_in_month_def DAYS_IN_MONTH_def)
  have y: "year ?today < 9999" by simp
  have n: "\<not> is_leap (year ?today)" by (simp add: is_leap_def)
  have b: "fst (birthdays ?today []
       [(lit ''bob'', \<lparr>name = lit ''bob'', phones = [lit ''0987654321''],
          birthday = Some (lit ''27.02.1990'')\<rparr>)])
     = lit ''bob: 27.02.2023''"
    by (simp add: birthdays_def birthdays_func_def input_error_def query_bob; simp add: lit_def)
  show ?thesis
    using leap_day_birthday_breaks_birthdays [OF l v y n, of "[]"] b
    by (simp add: commands_reach_book)
qed

end
